theory Spec2Isabelle
  imports Complex_Main "HOL-Library.Log_Nat"
begin

section \<open>The process supervisor and the tool-process client (class TatumMCPServer)\<close>

text \<open>
  The fields of \<open>TatumMCPServer\<close> as its constructor declares them. \<open>mcpProcess\<close> is
  \<open>None\<close> for \<open>null\<close>; of a child process handle the model keeps its identity and the
  \<open>killed\<close> flag, the only property of it that the class reads. \<open>healthCheckInterval\<close> is
  \<open>True\<close> while an interval is installed. JavaScript numbers are modelled by \<open>nat\<close>:
  the counters are small non-negative integers, on which the arithmetic of doubles is exact.
\<close>

record process =
  pid :: nat
  killed :: bool

record server =
  isConnected :: bool
  mcpProcess :: "process option"
  requestId :: nat
  retryCount :: nat
  maxRetries :: nat
  healthCheckInterval :: bool
  fallbackMode :: bool
  connectionAttempts :: nat
  maxConnectionAttempts :: nat
  lastError :: "string option"

text \<open>How the promise returned by \<open>callMcpTool\<close> was settled.\<close>

datatype settlement = Resolved | Rejected string

text \<open>
  What the Node.js runtime holds for the server object besides its fields: the child
  processes that were spawned and have not closed yet, the timers that are pending, the
  \<open>data\<close> listeners that \<open>callMcpTool\<close> attached to the standard output of a child (as
  pairs of the child's identity and the request id the listener waits for), and the
  promises that are settled. \<open>startCalls\<close> counts the invocations of \<open>start()\<close>.
\<close>

record runtime = server +
  live :: "nat list"
  nextPid :: nat
  restartTimers :: nat
  connectTimers :: nat
  startCalls :: nat
  listeners :: "(nat \<times> nat) list"
  toolTimers :: "nat list"
  settled :: "(nat \<times> settlement) list"

definition constructor :: runtime where
  "constructor =
     \<lparr> isConnected = False, mcpProcess = None, requestId = 0, retryCount = 0,
       maxRetries = 3, healthCheckInterval = False, fallbackMode = False,
       connectionAttempts = 0, maxConnectionAttempts = 20, lastError = None,
       live = [], nextPid = 0, restartTimers = 0, connectTimers = 0, startCalls = 0,
       listeners = [], toolTimers = [], settled = [] \<rparr>"

definition enableFallbackMode :: "string \<Rightarrow> runtime \<Rightarrow> runtime" where
  "enableFallbackMode reason s =
     s\<lparr> fallbackMode := True, isConnected := False, lastError := Some reason \<rparr>"

definition stopHealthCheck :: "runtime \<Rightarrow> runtime" where
  "stopHealthCheck s =
     (if healthCheckInterval s then s\<lparr> healthCheckInterval := False \<rparr> else s)"

definition startHealthCheck :: "runtime \<Rightarrow> runtime" where
  "startHealthCheck s = (stopHealthCheck s)\<lparr> healthCheckInterval := True \<rparr>"

text \<open>
  The synchronous part of \<open>start()\<close>: it spawns the child, registers the handlers on it
  and arms the 10 second connection monitor. The argument is the message of the exception
  thrown by \<open>spawn\<close>, if it throws. The polling loop that follows only reads
  \<open>isConnected\<close> to compute the promised boolean and changes no field.
\<close>

definition start :: "string option \<Rightarrow> runtime \<Rightarrow> runtime" where
  "start spawnError s =
     (let s0 = s\<lparr> startCalls := Suc (startCalls s) \<rparr> in
      case spawnError of
        Some msg \<Rightarrow> enableFallbackMode (''Spawn error: '' @ msg) s0
      | None \<Rightarrow>
          s0\<lparr> mcpProcess := Some \<lparr> pid = nextPid s0, killed = False \<rparr>,
              live := live s0 @ [nextPid s0],
              nextPid := Suc (nextPid s0),
              connectTimers := Suc (connectTimers s0) \<rparr>)"

definition handleConnectionLoss :: "runtime \<Rightarrow> runtime" where
  "handleConnectionLoss s =
     (if retryCount s < maxRetries s
      then (s\<lparr> retryCount := retryCount s + 1 \<rparr>)\<lparr> restartTimers := Suc (restartTimers s) \<rparr>
      else enableFallbackMode ''Max retries reached'' s)"

text \<open>
  \<open>start()\<close> registers two \<open>close\<close> handlers on every child, the first inside the inner
  \<open>try\<close> block and the second after it; the event emitter runs them in this order.
\<close>

definition onClose1 :: "runtime \<Rightarrow> runtime" where
  "onClose1 s = handleConnectionLoss (s\<lparr> isConnected := False \<rparr>)"

definition onClose2 :: "runtime \<Rightarrow> runtime" where
  "onClose2 s =
     (let s1 = stopHealthCheck (s\<lparr> isConnected := False \<rparr>) in
      if retryCount s1 < maxRetries s1
      then (s1\<lparr> restartTimers := Suc (restartTimers s1) \<rparr>)\<lparr> retryCount := retryCount s1 + 1 \<rparr>
      else s1)"

text \<open>
  The handlers of a chunk of output that contains the readiness marker: again one
  registered inside the inner \<open>try\<close> block and one after it, on both output streams.
\<close>

definition onReady1 :: "runtime \<Rightarrow> runtime" where
  "onReady1 s =
     startHealthCheck (s\<lparr> isConnected := True, fallbackMode := False, retryCount := 0 \<rparr>)"

definition onReady2 :: "runtime \<Rightarrow> runtime" where
  "onReady2 s = startHealthCheck (s\<lparr> isConnected := True, retryCount := 0 \<rparr>)"

definition onError1 :: "string \<Rightarrow> runtime \<Rightarrow> runtime" where
  "onError1 msg s = enableFallbackMode (''Process error: '' @ msg) s"

definition onError2 :: "runtime \<Rightarrow> runtime" where
  "onError2 s = stopHealthCheck (s\<lparr> isConnected := False \<rparr>)"

text \<open>The callback of the 10 second timer that \<open>start()\<close> arms.\<close>

definition connectionMonitor :: "runtime \<Rightarrow> runtime" where
  "connectionMonitor s =
     (if \<not> isConnected s then enableFallbackMode ''Connection timeout'' s else s)"

text \<open>The callback of the interval that \<open>startHealthCheck\<close> installs.\<close>

definition healthCheck :: "string option \<Rightarrow> runtime \<Rightarrow> runtime" where
  "healthCheck spawnError s =
     (case mcpProcess s of
        Some p \<Rightarrow> if killed p then start spawnError (s\<lparr> isConnected := False \<rparr>) else s
      | None \<Rightarrow> s)"

text \<open>
  \<open>kill()\<close> sets \<open>killed\<close> when the signal was delivered, that is when the child has
  not closed yet. The child closes later, and its \<open>close\<close> handlers run then.
\<close>

definition kill :: "runtime \<Rightarrow> runtime" where
  "kill s =
     (case mcpProcess s of
        None \<Rightarrow> s
      | Some p \<Rightarrow> s\<lparr> mcpProcess := Some (p\<lparr> killed := killed p \<or> pid p \<in> set (live s) \<rparr>) \<rparr>)"

definition restart :: "string option \<Rightarrow> runtime \<Rightarrow> runtime" where
  "restart spawnError s =
     start spawnError ((kill (stopHealthCheck s))\<lparr> isConnected := False, retryCount := 0 \<rparr>)"

text \<open>Settling a promise a second time has no effect.\<close>

definition settle :: "nat \<Rightarrow> settlement \<Rightarrow> runtime \<Rightarrow> runtime" where
  "settle i r s =
     (if i \<in> fst ` set (settled s) then s else s\<lparr> settled := settled s @ [(i, r)] \<rparr>)"

text \<open>
  \<open>callMcpTool\<close> up to the point where it returns its promise: it throws when the server
  is not connected, and otherwise takes the next request id, arms the 15 second timer and
  attaches its listener to the standard output of the current child. Were there no child,
  the executor of the promise would throw and the promise be rejected.
\<close>

definition callMcpTool :: "runtime \<Rightarrow> string + (nat \<times> runtime)" where
  "callMcpTool s =
     (if \<not> isConnected s then Inl ''MCP server not connected''
      else
        (let s1 = s\<lparr> requestId := requestId s + 1 \<rparr>; i = requestId s1;
             s2 = s1\<lparr> toolTimers := toolTimers s1 @ [i] \<rparr> in
         case mcpProcess s2 of
           None \<Rightarrow> Inr (i, settle i (Rejected ''TypeError: Cannot read properties of null'') s2)
         | Some p \<Rightarrow> Inr (i, s2\<lparr> listeners := listeners s2 @ [(pid p, i)] \<rparr>)))"

text \<open>The callback of the 15 second timer of request \<open>i\<close>.\<close>

definition onToolTimeout :: "nat \<Rightarrow> runtime \<Rightarrow> runtime" where
  "onToolTimeout i s = settle i (Rejected ''MCP request timeout'') s"

text \<open>
  The listener \<open>onData\<close> of request \<open>i\<close>, attached to the standard output of child
  \<open>p\<close>, on a chunk that parses as a JSON object with the given \<open>id\<close> and, possibly, an
  error message. On its own id it clears the timer and calls
  \<open>this.mcpProcess.stdout.removeListener('data', onData)\<close>, which is on the child that
  is current when the response comes: when that is another child than \<open>p\<close>, the call
  removes nothing and the listener stays attached to \<open>p\<close>. Were there no child, the
  exception would be caught by the listener's own \<open>catch\<close> and the promise not settled.
  Chunks that do not parse are ignored.
\<close>

definition onData :: "nat \<Rightarrow> nat \<Rightarrow> nat \<Rightarrow> string option \<Rightarrow> runtime \<Rightarrow> runtime" where
  "onData p i response_id response_error s =
     (if response_id = i
      then
        (let s1 = s\<lparr> toolTimers := removeAll i (toolTimers s) \<rparr> in
         case mcpProcess s1 of
           None \<Rightarrow> s1
         | Some cur \<Rightarrow>
             (let s2 = s1\<lparr> listeners := (if pid cur = p then removeAll (p, i) (listeners s1)
                                            else listeners s1) \<rparr>
              in case response_error of
                   Some msg \<Rightarrow> settle i (Rejected msg) s2
                 | None \<Rightarrow> settle i Resolved s2))
      else s)"

text \<open>
  What can happen to the server, one event of the Node.js event loop at a time. An event
  that cannot occur in a state (a child that is not running closes, a timer that is not
  pending fires) has no successor state.
\<close>

datatype event =
    ProcessClose nat
  | ProcessReady nat
  | ProcessError nat string
  | RestartTimer "string option"
  | ConnectTimer
  | HealthTick "string option"
  | Restart "string option"
  | ForceFallback string
  | CallTool
  | ToolResponse nat nat "string option"
  | ToolTimeout nat

fun step :: "event \<Rightarrow> runtime \<Rightarrow> runtime option" where
  "step (ProcessClose p) s =
     (if p \<in> set (live s)
      then Some (onClose2 (onClose1 (s\<lparr> live := removeAll p (live s) \<rparr>)))
      else None)"
| "step (ProcessReady p) s =
     (if p \<in> set (live s) then Some (onReady2 (onReady1 s)) else None)"
| "step (ProcessError p msg) s =
     (if p \<in> set (live s) then Some (onError2 (onError1 msg s)) else None)"
| "step (RestartTimer spawnError) s =
     (if 0 < restartTimers s
      then Some (start spawnError (s\<lparr> restartTimers := restartTimers s - 1 \<rparr>))
      else None)"
| "step ConnectTimer s =
     (if 0 < connectTimers s
      then Some (connectionMonitor (s\<lparr> connectTimers := connectTimers s - 1 \<rparr>))
      else None)"
| "step (HealthTick spawnError) s =
     (if healthCheckInterval s then Some (healthCheck spawnError s) else None)"
| "step (Restart spawnError) s = Some (restart spawnError s)"
| "step (ForceFallback reason) s = Some (enableFallbackMode reason s)"
| "step CallTool s = (case callMcpTool s of Inl err \<Rightarrow> Some s | Inr (i, s') \<Rightarrow> Some s')"
| "step (ToolResponse p response_id response_error) s =
     (if p \<in> set (live s)
      then Some (fold (\<lambda>(q, i) t. if q = p then onData q i response_id response_error t else t)
                   (listeners s) s)
      else None)"
| "step (ToolTimeout i) s =
     (if i \<in> set (toolTimers s)
      then Some (onToolTimeout i (s\<lparr> toolTimers := removeAll i (toolTimers s) \<rparr>))
      else None)"

fun exec :: "event list \<Rightarrow> runtime \<Rightarrow> runtime option" where
  "exec [] s = Some s"
| "exec (e # es) s = (case step e s of None \<Rightarrow> None | Some s' \<Rightarrow> exec es s')"

text \<open>The module creates the server and calls \<open>start()\<close> on it at once.\<close>

definition initial :: runtime where
  "initial = start None constructor"

text \<open>The request ids that the calls of a run were given, in the order of the calls.\<close>

fun assignedIds :: "event list \<Rightarrow> runtime \<Rightarrow> nat list" where
  "assignedIds [] s = []"
| "assignedIds (e # es) s =
     (case step e s of
        None \<Rightarrow> []
      | Some s' \<Rightarrow>
          (if e = CallTool
           then (case callMcpTool s of Inl err \<Rightarrow> [] | Inr (i, t) \<Rightarrow> [i])
           else []) @ assignedIds es s')"

text \<open>The events that are neither the exit of a child, nor a readiness marker, nor \<open>restart()\<close>.\<close>

fun quiet :: "event \<Rightarrow> bool" where
  "quiet (ProcessClose p) = False"
| "quiet (ProcessReady p) = False"
| "quiet (Restart spawnError) = False"
| "quiet e = True"

section \<open>The intent classifier (getBlockchainContext)\<close>

text \<open>
  Message texts are strings of ASCII characters; \<open>toLowerCase\<close> maps the letters
  \<open>A\<close> to \<open>Z\<close> to \<open>a\<close> to \<open>z\<close> and leaves every other character as it is.
\<close>

definition toLowerCase_char :: "char \<Rightarrow> char" where
  "toLowerCase_char c =
     (let n = (of_char c :: nat) in if 65 \<le> n \<and> n \<le> 90 then char_of (n + 32) else c)"

definition toLowerCase :: "string \<Rightarrow> string" where
  "toLowerCase s = map toLowerCase_char s"

definition startsWith :: "string \<Rightarrow> string \<Rightarrow> bool" where
  "startsWith s pat = (take (length pat) s = pat)"

text \<open>\<open>str_includes s pat\<close> is \<open>s.includes(pat)\<close>: \<open>pat\<close> occurs in \<open>s\<close>.\<close>

fun str_includes :: "string \<Rightarrow> string \<Rightarrow> bool" where
  "str_includes [] pat = (pat = [])"
| "str_includes (c # cs) pat = (startsWith (c # cs) pat \<or> str_includes cs pat)"

text \<open>The character class \<open>[a-fA-F0-9]\<close>.\<close>

definition hexDigit :: "char \<Rightarrow> bool" where
  "hexDigit c =
     (let n = (of_char c :: nat) in
      (97 \<le> n \<and> n \<le> 102) \<or> (65 \<le> n \<and> n \<le> 70) \<or> (48 \<le> n \<and> n \<le> 57))"

text \<open>
  The regular expression \<open>/0x[a-fA-F0-9]{40}/\<close>: \<open>addressAt s\<close> says that it matches
  at the start of \<open>s\<close>, and \<open>match_address s\<close> is the leftmost match in \<open>s\<close>, the
  element \<open>[0]\<close> of the result of \<open>s.match\<close>, or \<open>None\<close> where \<open>match\<close> returns
  \<open>null\<close>.
\<close>

definition addressAt :: "string \<Rightarrow> bool" where
  "addressAt s =
     (42 \<le> length s \<and> take 2 s = ''0x'' \<and> list_all hexDigit (take 40 (drop 2 s)))"

fun match_address :: "string \<Rightarrow> string option" where
  "match_address [] = None"
| "match_address (c # cs) =
     (if addressAt (c # cs) then Some (take 42 (c # cs)) else match_address cs)"

text \<open>
  The values of the property \<open>type\<close> are the strings \<open>wallet\<close>, \<open>portfolio\<close>,
  \<open>nft\<close>, \<open>chain\<close>, \<open>chain_info\<close>, \<open>gas\<close> and \<open>general\<close>.
\<close>

datatype context_type = Wallet | Portfolio | Nft | Chain | Chain_info | Gas | General

text \<open>
  The object that \<open>getBlockchainContext\<close> returns. A property that the returned object
  literal does not have is \<open>None\<close>.
\<close>

record blockchain_context =
  needsData :: bool
  chain :: "string option"
  type :: context_type
  address :: "string option"
  multiChain :: "bool option"

definition getBlockchainContext :: "string \<Rightarrow> blockchain_context" where
  "getBlockchainContext message =
     (let lowerMessage = toLowerCase message;
          has = str_includes lowerMessage;
          isMultiChain = (has ''all chain'' \<or> has ''multi-chain'' \<or> has ''multi chain'' \<or>
                          has ''across all'' \<or> has ''every chain'' \<or> has ''all networks'' \<or>
                          has ''multi'' \<or> has ''all chains'')
      in
      case match_address lowerMessage of
        Some a \<Rightarrow>
          if has ''portfolio'' \<or> has ''portofolio'' \<or> has ''analyze portfolio'' \<or>
             has ''portfolio analysis''
          then \<lparr> needsData = True, chain = Some ''ethereum'', type = Portfolio,
                 address = Some a, multiChain = Some (isMultiChain \<or> has ''portfolio'') \<rparr>
          else if has ''nft'' \<or> has ''nft analysis'' \<or> has ''nft gallery'' \<or>
                  has ''nft collection'' \<or> has ''collection''
          then \<lparr> needsData = True, chain = Some ''ethereum'', type = Nft,
                 address = Some a, multiChain = Some (isMultiChain \<or> has ''nft'') \<rparr>
          else if has ''wallet'' \<or> has ''balance'' \<or> has ''analysis'' \<or> has ''check'' \<or>
                  has ''analyze'' \<or> has ''wallet analysis''
          then \<lparr> needsData = True, chain = Some ''ethereum'', type = Wallet,
                 address = Some a, multiChain = Some (isMultiChain \<or> has ''wallet'') \<rparr>
          else \<lparr> needsData = True, chain = Some ''ethereum'', type = Wallet,
                 address = Some a, multiChain = Some isMultiChain \<rparr>
      | None \<Rightarrow>
          if has ''ethereum'' \<or> has ''eth''
          then \<lparr> needsData = True, chain = Some ''ethereum'', type = Chain,
                 address = None, multiChain = None \<rparr>
          else if has ''polygon'' \<or> has ''matic''
          then \<lparr> needsData = True, chain = Some ''polygon'', type = Chain,
                 address = None, multiChain = None \<rparr>
          else if has ''bsc'' \<or> has ''bnb''
          then \<lparr> needsData = True, chain = Some ''bsc'', type = Chain,
                 address = None, multiChain = None \<rparr>
          else if has ''arbitrum'' \<or> has ''arb''
          then \<lparr> needsData = True, chain = Some ''arbitrum'', type = Chain,
                 address = None, multiChain = None \<rparr>
          else if has ''base''
          then \<lparr> needsData = True, chain = Some ''base'', type = Chain,
                 address = None, multiChain = None \<rparr>
          else if has ''optimism'' \<or> has ''op''
          then \<lparr> needsData = True, chain = Some ''optimism'', type = Chain,
                 address = None, multiChain = None \<rparr>
          else if has ''gas'' \<or> has ''fee'' \<or> has ''gas price'' \<or> has ''gas cost''
          then \<lparr> needsData = True, chain = Some ''ethereum'', type = Gas,
                 address = None, multiChain = None \<rparr>
          else if has ''chains'' \<or> has ''chain info'' \<or> has ''supported chains'' \<or>
                  has ''blockchain info'' \<or> has ''chain''
          then \<lparr> needsData = False, chain = Some ''ethereum'', type = Chain_info,
                 address = None, multiChain = None \<rparr>
          else if has ''nft'' \<or> has ''token'' \<or> has ''collection'' \<or> has ''total nft value''
          then \<lparr> needsData = True, chain = Some ''ethereum'', type = Nft,
                 address = None, multiChain = Some isMultiChain \<rparr>
          else if has ''wallet'' \<or> has ''balance'' \<or> has ''hold'' \<or> has ''checker''
          then \<lparr> needsData = True, chain = Some ''ethereum'', type = Wallet,
                 address = None, multiChain = Some isMultiChain \<rparr>
          else if has ''portfolio'' \<or> has ''portofolio''
          then \<lparr> needsData = True, chain = Some ''ethereum'', type = Portfolio,
                 address = None, multiChain = Some isMultiChain \<rparr>
          else \<lparr> needsData = False, chain = None, type = General,
                 address = None, multiChain = None \<rparr>)"

section \<open>The fallback responder\<close>

text \<open>
  An \<open>axios\<close> request either rejects, with an error of which the model keeps the
  message, or resolves with a response, of which the model keeps the body \<open>data\<close>.
  JavaScript numbers that stand for amounts of the wallet and portfolio analyses are
  modelled by rationals, with exact arithmetic in place of the arithmetic of doubles.
  The gas route, whose results depend on how halves are rounded, is modelled with the
  arithmetic of doubles.
\<close>

datatype 'a axios = Rejects string | Resolves 'a

definition chains :: "string list" where
  "chains = [''ethereum'', ''polygon'', ''bsc'', ''arbitrum'', ''base'', ''optimism'']"

definition nl :: string where
  "nl = [CHR 0x0A]"

subsection \<open>Numbers\<close>

text \<open>
  A JavaScript number is an IEEE 754 double. A double is modelled as the rational it
  denotes, and \<open>dbl x\<close> is the double nearest to \<open>x\<close>, of two that are equally near the
  one with the even significand: the result of an arithmetic operation on doubles is
  \<open>dbl\<close> of the exact result, and the literal \<open>0.8\<close> is \<open>dbl (8 / 10)\<close>. \<open>expo x\<close> is
  the binary exponent of a positive \<open>x\<close>, the integer \<open>e\<close> with
  \<open>2 powi e \<le> x < 2 powi (e + 1)\<close>, and \<open>rne\<close> rounds to the nearest integer, a half
  to the even one; the significand has 53 bits. The exponent is not bounded here: numbers
  as small as the subnormal doubles or greater than the largest double do not occur.
\<close>

definition expo :: "rat \<Rightarrow> int" where
  "expo x = (if 1 \<le> x then bitlen \<lfloor>x\<rfloor> - 1 else - bitlen (\<lceil>1 / x\<rceil> - 1))"

definition rne :: "rat \<Rightarrow> int" where
  "rne y =
     (let f = \<lfloor>y\<rfloor>; r = y - of_int f
      in if r < 1 / 2 then f else if 1 / 2 < r then f + 1 else if even f then f else f + 1)"

definition dbl :: "rat \<Rightarrow> rat" where
  "dbl x =
     (if x = 0 then 0
      else (let s = 2 powi (expo \<bar>x\<bar> - 52) in sgn x * of_int (rne (\<bar>x\<bar> / s)) * s))"

subsection \<open>Printing numbers\<close>

function decimal :: "nat \<Rightarrow> string" where
  "decimal n =
     (if n < 10 then [char_of (48 + n)] else decimal (n div 10) @ [char_of (48 + n mod 10)])"
  by pat_completeness auto
termination
  by (relation "measure id") auto

declare decimal.simps [simp del]

text \<open>
  \<open>x.toFixed(f)\<close> for the number \<open>dbl x\<close>: the integer \<open>n\<close> for which \<open>n / 10 ^ f\<close> is
  nearest to the magnitude of the double, the larger one of two, printed with \<open>f\<close> digits
  after the point and the sign in front. \<open>fixedValue f x\<close> is the number that
  \<open>parseFloat\<close> reads from that text, the double nearest to \<open>n / 10 ^ f\<close>.
  (Numbers from \<open>10 ^ 21\<close> on, which JavaScript prints with an exponent, do not occur.)
\<close>

definition fixedDigits :: "nat \<Rightarrow> rat \<Rightarrow> nat" where
  "fixedDigits f x = nat \<lfloor>\<bar>dbl x\<bar> * 10 ^ f + 1 / 2\<rfloor>"

definition toFixed :: "nat \<Rightarrow> rat \<Rightarrow> string" where
  "toFixed f x =
     (let ds = decimal (fixedDigits f x);
          padded = replicate (Suc f - length ds) CHR ''0'' @ ds;
          k = length padded - f
      in (if x < 0 then ''-'' else []) @ take k padded @
         (if f = 0 then [] else ''.'' @ drop k padded))"

definition fixedValue :: "nat \<Rightarrow> rat \<Rightarrow> rat" where
  "fixedValue f x = (if x < 0 then - 1 else 1) * dbl (of_nat (fixedDigits f x) / 10 ^ f)"

text \<open>\<open>Math.round\<close> of a double: the nearest integer, a half upwards.\<close>

definition Math_round :: "rat \<Rightarrow> int" where
  "Math_round x = \<lfloor>x + 1 / 2\<rfloor>"

subsection \<open>Gas prices\<close>

text \<open>
  The route \<open>GET /api/gas/:chain\<close>. Its argument is the outcome of \<open>callTatumAPI\<close> for
  \<open>eth_gasPrice\<close>, with the number of wei that the hexadecimal digits of
  \<open>gasData.result || '0'\<close> denote; \<open>parseInt\<close> returns the double nearest to it. The
  route divides by \<open>Math.pow(10, 9)\<close>, prints the quotient with \<open>toFixed(2)\<close>, reads
  the text back with \<open>parseFloat\<close> and rounds the products of that number with the
  literals \<open>0.8\<close>, \<open>1.2\<close> and \<open>0.9\<close>; every step is an operation on doubles. The
  result is the JSON object \<open>gasPrice\<close> of the response, or the status and the error
  message of the response. \<open>hasConfig c\<close> says that \<open>CHAIN_CONFIGS[c]\<close> is truthy:
  \<open>c\<close> is one of the six chains, or the name of a property that every object inherits.
\<close>

record gasPrice =
  slow :: int
  standard :: int
  fast :: int
  baseFee :: int

definition hasConfig :: "string \<Rightarrow> bool" where
  "hasConfig c =
     (c \<in> set chains \<or>
      c \<in> set [''constructor'', ''hasOwnProperty'', ''isPrototypeOf'',
                 ''propertyIsEnumerable'', ''toLocaleString'', ''toString'', ''valueOf'',
                 ''__defineGetter__'', ''__defineSetter__'', ''__lookupGetter__'',
                 ''__lookupSetter__'', ''__proto__''])"

definition api_gas :: "string \<Rightarrow> nat axios \<Rightarrow> (nat \<times> string) + gasPrice" where
  "api_gas chainParam gasData =
     (if \<not> hasConfig chainParam then Inl (400, ''Unsupported chain'')
      else
        case gasData of
          Rejects msg \<Rightarrow> Inl (500, ''Failed to get gas price: '' @ msg)
        | Resolves wei \<Rightarrow>
            (let gasPriceValue = fixedValue 2 (dbl (dbl (of_nat wei) / 10 ^ 9)) in
             Inr \<lparr> slow = Math_round (dbl (gasPriceValue * dbl (8 / 10))),
                   standard = Math_round gasPriceValue,
                   fast = Math_round (dbl (gasPriceValue * dbl (12 / 10))),
                   baseFee = Math_round (dbl (gasPriceValue * dbl (9 / 10))) \<rparr>))"

text \<open>
  The tiers as the specification words them, for a price \<open>g\<close> in Gwei: slow is 0.8 times,
  standard 1 times and fast 1.2 times the price, the base fee 0.9 times, each rounded to
  an integer.
\<close>

definition spec_gas_tiers :: "rat \<Rightarrow> gasPrice" where
  "spec_gas_tiers g =
     \<lparr> slow = round (8 / 10 * g), standard = round g, fast = round (12 / 10 * g),
       baseFee = round (9 / 10 * g) \<rparr>"

text \<open>
  \<open>getGasDataFallback\<close>. The body of the response of the data source has the properties
  \<open>slow\<close>, \<open>standard\<close> and \<open>fast\<close>; each is given as the text that the template
  prints for it, or \<open>None\<close> when it is missing or falsy. The pictographs of the source
  text are given by their UTF-8 bytes.
\<close>

record gas_data =
  data_slow :: "string option"
  data_standard :: "string option"
  data_fast :: "string option"

definition pictograph_refresh :: string where
  "pictograph_refresh = [CHR 0xF0, CHR 0x9F, CHR 0x94, CHR 0x84]"

definition pictograph_cross :: string where
  "pictograph_cross = [CHR 0xE2, CHR 0x9D, CHR 0x8C]"

definition or_NA :: "string option \<Rightarrow> string" where
  "or_NA v = (case v of None \<Rightarrow> ''N/A'' | Some t \<Rightarrow> t)"

definition getGasDataFallback :: "string \<Rightarrow> gas_data axios \<Rightarrow> string" where
  "getGasDataFallback chainParam response =
     (case response of
        Resolves d \<Rightarrow>
          pictograph_refresh @ '' **Fallback Analysis - Gas Prices**'' @ nl @ nl @
          ''**Chain:** '' @ chainParam @ nl @
          ''**Slow:** '' @ or_NA (data_slow d) @ '' Gwei'' @ nl @
          ''**Standard:** '' @ or_NA (data_standard d) @ '' Gwei'' @ nl @
          ''**Fast:** '' @ or_NA (data_fast d) @ '' Gwei'' @ nl @ nl @
          ''*This response was generated using fallback mode due to MCP server issues.*''
      | Rejects msg \<Rightarrow>
          pictograph_cross @ '' **Fallback Error:**'' @ nl @ nl @
          ''Unable to fetch gas data: '' @ msg @ nl @ nl @
          ''*This is a fallback response due to MCP server issues.*'')"

subsection \<open>The data source, chain by chain\<close>

text \<open>
  The body of the response to a balance request, with the two properties that the code
  reads, and an entry of a token list. A property that is missing is \<open>None\<close>. (The
  JavaScript names of \<open>token_balance\<close> and \<open>token_usdValue\<close> are \<open>balance\<close> and
  \<open>usdValue\<close>.)
\<close>

record balance_data =
  balance :: "string option"
  usdValue :: "rat option"

record token =
  tokenAddress :: "string option"
  token_balance :: "string option"
  token_usdValue :: "rat option"
  symbol :: "string option"

text \<open>
  A value that the code goes on to use as an array: missing or falsy, an array, or some
  other truthy value, on which the array methods do not exist and the call throws.
\<close>

datatype 'a array_field = Absent | Array "'a list" | NotArray

text \<open>
  What the data source does to the two requests that a multi-chain analysis makes for one
  chain: the native balance (whose body may be \<open>null\<close>, here \<open>None\<close>) and the token
  list (the property \<open>result\<close> of the body in the wallet analysis, the body itself in
  the portfolio analysis). The data source is a table of such replies by chain; a chain
  with no entry is not reached at all, and both its requests reject.
\<close>

record chain_reply =
  nativeReply :: "balance_data option axios"
  tokenReply :: "token array_field axios"

type_synonym data_source = "(string \<times> chain_reply) list"

definition reply_of :: "data_source \<Rightarrow> string \<Rightarrow> chain_reply" where
  "reply_of api c =
     (case map_of api c of
        Some r \<Rightarrow> r
      | None \<Rightarrow> \<lparr> nativeReply = Rejects ''Network Error'',
                   tokenReply = Rejects ''Network Error'' \<rparr>)"

text \<open>Both requests of a chain fail.\<close>

definition callsFail :: "chain_reply \<Rightarrow> bool" where
  "callsFail r =
     ((case nativeReply r of Rejects e \<Rightarrow> True | Resolves d \<Rightarrow> False) \<and>
      (case tokenReply r of Rejects e \<Rightarrow> True | Resolves d \<Rightarrow> False))"

text \<open>The expressions \<open>v || 0\<close> on a number and \<open>v || d\<close> on a string.\<close>

definition number_or_0 :: "rat option \<Rightarrow> rat" where
  "number_or_0 v = (case v of None \<Rightarrow> 0 | Some x \<Rightarrow> x)"

definition string_or :: "string option \<Rightarrow> string \<Rightarrow> string" where
  "string_or v d = (case v of None \<Rightarrow> d | Some t \<Rightarrow> if t = [] then d else t)"

text \<open>The object that the task of a chain returns.\<close>

record chain_result =
  nativeBalance :: string
  nativeValue :: rat
  tokens :: "token list"
  tokenValue :: rat
  totalValue :: rat

definition zeroResult :: chain_result where
  "zeroResult =
     \<lparr> nativeBalance = ''0'', nativeValue = 0, tokens = [], tokenValue = 0, totalValue = 0 \<rparr>"

subsection \<open>Multi-chain wallet analysis\<close>

text \<open>
  The \<open>try\<close> block of the task that \<open>getMultiChainWalletFallback\<close> runs for a chain.
  Each of the two requests has its own \<open>catch\<close>, which puts a default response in the
  place of a failure. \<open>Inl\<close> is an exception thrown in the block.
\<close>

definition shortSymbol :: "token \<Rightarrow> string" where
  "shortSymbol t =
     (case tokenAddress t of
        None \<Rightarrow> ''Unknown''
      | Some a \<Rightarrow> if a = [] then ''Unknown'' else take 6 a @ ''...'' @ drop (length a - 4) a)"

definition walletResult :: "balance_data \<Rightarrow> token list \<Rightarrow> chain_result" where
  "walletResult nb ts =
     (let nativeValue = number_or_0 (usdValue nb);
          tokenValue = 0;
          tokens = map (\<lambda>t. t\<lparr> token_usdValue := Some 0, symbol := Some (shortSymbol t) \<rparr>) ts;
          chainTotal = nativeValue + tokenValue
      in \<lparr> nativeBalance = string_or (balance nb) ''0'', nativeValue = nativeValue,
            tokens = tokens, tokenValue = tokenValue, totalValue = chainTotal \<rparr>)"

definition walletChain :: "chain_reply \<Rightarrow> string + chain_result" where
  "walletChain r =
     (let nativeBalance =
            (case nativeReply r of
               Rejects e \<Rightarrow> Some \<lparr> balance = Some ''0'', usdValue = Some 0 \<rparr>
             | Resolves d \<Rightarrow> d);
          tokenResponse = (case tokenReply r of Rejects e \<Rightarrow> Absent | Resolves d \<Rightarrow> d)
      in case nativeBalance of
           None \<Rightarrow> Inl ''TypeError''
         | Some nb \<Rightarrow>
             (case tokenResponse of
                Absent \<Rightarrow> Inr (walletResult nb [])
              | Array ts \<Rightarrow> Inr (walletResult nb ts)
              | NotArray \<Rightarrow> Inl ''TypeError''))"

text \<open>The test under which a task counts its chain as active.\<close>

definition isActive :: "chain_result \<Rightarrow> bool" where
  "isActive x = (0 < totalValue x \<or> 0 < length (tokens x))"

text \<open>
  The local variables of \<open>getMultiChainWalletFallback\<close> when all tasks are done and the
  results are summed up. A task whose block throws adds one to \<open>apiErrors\<close> and returns
  zeros. The counters do not depend on the order in which the tasks finish.
\<close>

record wallet_analysis =
  chainData :: "(string \<times> chain_result) list"
  totalPortfolioValue :: rat
  totalTokens :: nat
  activeChains :: nat
  apiErrors :: nat

definition analyseWallet :: "data_source \<Rightarrow> wallet_analysis" where
  "analyseWallet api =
     (let outcomes = map (\<lambda>c. (c, walletChain (reply_of api c))) chains;
          results = map (\<lambda>(c, r). (c, case r of Inl e \<Rightarrow> zeroResult | Inr x \<Rightarrow> x)) outcomes
      in \<lparr> chainData = results,
            totalPortfolioValue = sum_list (map (\<lambda>(c, x). totalValue x) results),
            totalTokens = sum_list (map (\<lambda>(c, x). length (tokens x)) results),
            activeChains =
              length (filter (\<lambda>(c, r). case r of Inl e \<Rightarrow> False | Inr x \<Rightarrow> isActive x) outcomes),
            apiErrors =
              length (filter (\<lambda>(c, r). case r of Inl e \<Rightarrow> True | Inr x \<Rightarrow> False) outcomes) \<rparr>)"

definition pictograph_money :: string where
  "pictograph_money = [CHR 0xF0, CHR 0x9F, CHR 0x92, CHR 0xB0]"

definition pictograph_bullet :: string where
  "pictograph_bullet = [CHR 0xE2, CHR 0x80, CHR 0xA2]"

definition pictograph_warning :: string where
  "pictograph_warning = [CHR 0xE2, CHR 0x9A, CHR 0xA0, CHR 0xEF, CHR 0xB8, CHR 0x8F]"

text \<open>
  The first block of the response text, up to the chain breakdown. The breakdown and the
  list of holdings that follow it are built from \<open>chainData\<close> and are not spelled out.
\<close>

definition walletSummary :: "string \<Rightarrow> wallet_analysis \<Rightarrow> string" where
  "walletSummary addr a =
     pictograph_money @ '' **Multi-Chain Wallet Analysis (Fallback Mode)**'' @ nl @ nl @
     ''**Address:** '' @ [CHR 0x60] @ addr @ [CHR 0x60] @ nl @
     ''**Total Portfolio Value:** $'' @ toFixed 2 (totalPortfolioValue a) @ nl @
     ''**Active Chains:** '' @ decimal (activeChains a) @ ''/6'' @ nl @
     ''**Total Tokens:** '' @ decimal (totalTokens a) @ nl @
     (if 0 < apiErrors a then ''**API Errors:** '' @ decimal (apiErrors a) @ ''/6 chains'' @ nl
      else []) @
     nl"

definition getMockWalletResponse :: "string \<Rightarrow> string" where
  "getMockWalletResponse addr =
     pictograph_money @ '' **Multi-Chain Wallet Analysis (Mock Data)**'' @ nl @ nl @
     ''**Address:** '' @ [CHR 0x60] @ addr @ [CHR 0x60] @ nl @
     ''**Total Portfolio Value:** $0.00'' @ nl @
     ''**Active Chains:** 0/6'' @ nl @
     ''**Total Tokens:** 0'' @ nl @ nl @
     ''**Chain Breakdown:**'' @ nl @
     pictograph_bullet @ '' No active chains found'' @ nl @ nl @
     pictograph_warning @ '' **API Key Not Configured:**'' @ nl @
     pictograph_bullet @ '' Please set TATUM_API_KEY in your .env file'' @ nl @
     pictograph_bullet @ '' Get a free API key from: https://tatum.io/'' @ nl @
     pictograph_bullet @ '' Example: TATUM_API_KEY=your_api_key_here'' @ nl @ nl @
     ''*This is mock data. Configure your API key for real blockchain data.*''"

text \<open>The requests that the tasks send, two for each chain.\<close>

record request =
  url :: string
  params :: "(string \<times> string) list"

definition chainMapping :: "(string \<times> string) list" where
  "chainMapping =
     [(''ethereum'', ''ethereum-mainnet''), (''polygon'', ''polygon-mainnet''),
      (''bsc'', ''bsc-mainnet''), (''arbitrum'', ''arbitrum-one-mainnet''),
      (''base'', ''base-mainnet''), (''optimism'', ''optimism-mainnet'')]"

definition walletRequests :: "string \<Rightarrow> request list" where
  "walletRequests addr =
     concat (map (\<lambda>c.
       [\<lparr> url = ''https://api.tatum.io/v3/'' @ c @ ''/account/balance/'' @ addr, params = [] \<rparr>,
        \<lparr> url = ''https://api.tatum.io/v4/data/wallet/balances'',
          params = [(''chain'', case map_of chainMapping c of Some m \<Rightarrow> m | None \<Rightarrow> c),
                    (''addresses'', addr)] \<rparr>]) chains)"

text \<open>
  \<open>getMultiChainWalletFallback\<close>, given the value of the environment variable
  \<open>TATUM_API_KEY\<close> (\<open>None\<close> when it is not set) and the data source. It returns the
  response together with the requests it has sent. The response is either a text given
  in full, or the text that the code builds from an analysis, which begins with
  \<open>walletSummary\<close>. The whole body is in a \<open>try\<close> block whose \<open>catch\<close> returns an
  error text; with the data as typed here, nothing after the tasks throws.
\<close>

datatype wallet_response = Text string | Analysis wallet_analysis

definition getMultiChainWalletFallback ::
    "string option \<Rightarrow> data_source \<Rightarrow> string \<Rightarrow> wallet_response \<times> request list" where
  "getMultiChainWalletFallback TATUM_API_KEY api addr =
     (if TATUM_API_KEY = None \<or> TATUM_API_KEY = Some [] \<or>
         TATUM_API_KEY = Some ''your_tatum_api_key_here''
      then (Text (getMockWalletResponse addr), [])
      else (Analysis (analyseWallet api), walletRequests addr))"

subsection \<open>Multi-chain portfolio analysis\<close>

text \<open>
  The \<open>try\<close> block of the task that \<open>getMultiChainPortfolioFallback\<close> runs for a chain.
  It throws before it changes \<open>portfolioData\<close>, or not at all.
\<close>

definition portfolioChain :: "chain_reply \<Rightarrow> string + chain_result" where
  "portfolioChain r =
     (let nativeBalance =
            (case nativeReply r of
               Rejects e \<Rightarrow> Some \<lparr> balance = Some ''0'', usdValue = Some 0 \<rparr>
             | Resolves d \<Rightarrow> d);
          tokenResponse = (case tokenReply r of Rejects e \<Rightarrow> Array [] | Resolves d \<Rightarrow> d)
      in case nativeBalance of
           None \<Rightarrow> Inl ''TypeError''
         | Some nb \<Rightarrow>
             (case (case tokenResponse of Absent \<Rightarrow> Some [] | Array ts \<Rightarrow> Some ts
                    | NotArray \<Rightarrow> None) of
                None \<Rightarrow> Inl ''TypeError''
              | Some ts \<Rightarrow>
                  (let nativeValue = number_or_0 (usdValue nb);
                       tokenValue = sum_list (map (\<lambda>t. number_or_0 (token_usdValue t)) ts);
                       chainTotal = nativeValue + tokenValue
                   in Inr \<lparr> nativeBalance = string_or (balance nb) ''0'',
                            nativeValue = nativeValue, tokens = ts, tokenValue = tokenValue,
                            totalValue = chainTotal \<rparr>)))"

text \<open>\<open>Math.max\<close> of the elements of a list; \<open>None\<close> is \<open>-Infinity\<close>, of no element.\<close>

definition Math_max :: "rat list \<Rightarrow> rat option" where
  "Math_max vs = (case vs of [] \<Rightarrow> None | v # ws \<Rightarrow> Some (fold max ws v))"

text \<open>
  The object \<open>portfolioData\<close> after the risk analysis, without the list \<open>allTokens\<close>,
  whose order is the order in which the tasks finish. The prefix \<open>pd_\<close> is not part of
  the JavaScript names. \<open>pd_chains\<close> has the chains whose task did not throw.
\<close>

record riskAnalysis =
  diversification :: rat
  concentration :: "rat option"
  stability :: rat

record portfolioData =
  pd_totalValue :: rat
  pd_totalTokens :: nat
  pd_activeChains :: nat
  pd_chains :: "(string \<times> chain_result) list"
  pd_riskAnalysis :: riskAnalysis

definition analysePortfolio :: "data_source \<Rightarrow> portfolioData" where
  "analysePortfolio api =
     (let outcomes = map (\<lambda>c. (c, portfolioChain (reply_of api c))) chains;
          done = concat (map (\<lambda>(c, r). case r of Inl e \<Rightarrow> [] | Inr x \<Rightarrow> [(c, x)]) outcomes);
          total = sum_list (map (\<lambda>(c, x). totalValue x) done);
          totalTokens = sum_list (map (\<lambda>(c, x). length (tokens x)) done);
          activeChains = length (filter (\<lambda>(c, x). 0 < totalValue x) done);
          chainValues = map (\<lambda>(c, x). totalValue x) done;
          maxChainValue = Math_max chainValues
      in \<lparr> pd_totalValue = total, pd_totalTokens = totalTokens, pd_activeChains = activeChains,
            pd_chains = done,
            pd_riskAnalysis =
              \<lparr> diversification = of_nat activeChains / of_nat (length chains) * 100,
                concentration =
                  (if 0 < total then map_option (\<lambda>m. m / total * 100) maxChainValue
                   else Some 0),
                stability =
                  (if 0 < totalTokens then min 100 (of_nat totalTokens / 10 * 100) else 0) \<rparr> \<rparr>)"

section \<open>Properties of the process supervisor\<close>

lemmas handler_defs =
  enableFallbackMode_def stopHealthCheck_def startHealthCheck_def start_def
  handleConnectionLoss_def onClose1_def onClose2_def onReady1_def onReady2_def
  onError1_def onError2_def connectionMonitor_def healthCheck_def kill_def restart_def
  settle_def callMcpTool_def onToolTimeout_def onData_def

lemma fold_onData_fields:
  "maxRetries (fold (\<lambda>(q, i) t. if q = p then onData q i r e t else t) xs s) = maxRetries s"
  "retryCount (fold (\<lambda>(q, i) t. if q = p then onData q i r e t else t) xs s) = retryCount s"
  "requestId (fold (\<lambda>(q, i) t. if q = p then onData q i r e t else t) xs s) = requestId s"
  "restartTimers (fold (\<lambda>(q, i) t. if q = p then onData q i r e t else t) xs s) = restartTimers s"
  "startCalls (fold (\<lambda>(q, i) t. if q = p then onData q i r e t else t) xs s) = startCalls s"
  "fallbackMode (fold (\<lambda>(q, i) t. if q = p then onData q i r e t else t) xs s) = fallbackMode s"
  "isConnected (fold (\<lambda>(q, i) t. if q = p then onData q i r e t else t) xs s) = isConnected s"
  by (induction xs arbitrary: s; simp add: onData_def settle_def Let_def split: option.splits prod.splits)+

lemma step_maxRetries: "step e s = Some s' \<Longrightarrow> maxRetries s' = maxRetries s"
  by (cases e) (auto simp: handler_defs fold_onData_fields Let_def split: if_splits option.splits)

lemma step_retry_bound:
  "step e s = Some s' \<Longrightarrow> retryCount s \<le> maxRetries s \<Longrightarrow> retryCount s' \<le> maxRetries s'"
  by (cases e) (auto simp: handler_defs fold_onData_fields Let_def split: if_splits option.splits)

lemma step_quiet_retryCount:
  "step e s = Some s' \<Longrightarrow> quiet e \<Longrightarrow> retryCount s' = retryCount s"
  by (cases e) (auto simp: handler_defs fold_onData_fields Let_def split: if_splits option.splits)

lemma step_quiet_fallback:
  "step e s = Some s' \<Longrightarrow> quiet e \<Longrightarrow> fallbackMode s \<and> \<not> isConnected s \<Longrightarrow>
     fallbackMode s' \<and> \<not> isConnected s'"
  by (cases e) (auto simp: handler_defs fold_onData_fields Let_def split: if_splits option.splits)

lemma step_requestId_mono: "step e s = Some s' \<Longrightarrow> requestId s \<le> requestId s'"
  by (cases e) (auto simp: handler_defs fold_onData_fields Let_def split: if_splits option.splits)


lemma exec_append:
  "exec (xs @ ys) s = (case exec xs s of None \<Rightarrow> None | Some t \<Rightarrow> exec ys t)"
  by (induction xs arbitrary: s) (auto split: option.splits)

lemma exec_maxRetries: "exec es s = Some s' \<Longrightarrow> maxRetries s' = maxRetries s"
  by (induction es arbitrary: s) (auto split: option.splits dest: step_maxRetries)

lemma exec_retry_bound:
  "exec es s = Some s' \<Longrightarrow> retryCount s \<le> maxRetries s \<Longrightarrow> retryCount s' \<le> maxRetries s'"
  by (induction es arbitrary: s) (auto split: option.splits dest: step_retry_bound)

lemma exec_quiet_retryCount:
  "exec es s = Some s' \<Longrightarrow> list_all quiet es \<Longrightarrow> retryCount s' = retryCount s"
  by (induction es arbitrary: s) (auto split: option.splits dest: step_quiet_retryCount)

lemma exec_quiet_fallback:
  "exec es s = Some s' \<Longrightarrow> list_all quiet es \<Longrightarrow> fallbackMode s \<and> \<not> isConnected s \<Longrightarrow>
     fallbackMode s' \<and> \<not> isConnected s'"
proof (induction es arbitrary: s)
  case Nil
  then show ?case by simp
next
  case (Cons e es)
  from Cons.prems(1) obtain t where t: "step e s = Some t" "exec es t = Some s'"
    by (auto split: option.splits)
  have "fallbackMode t \<and> \<not> isConnected t"
    using step_quiet_fallback [OF t(1)] Cons.prems by simp
  then show ?case using Cons.IH [OF t(2)] Cons.prems(2) by simp
qed

lemma initial_fields: "retryCount initial = 0" "maxRetries initial = 3"
  by (simp_all add: initial_def constructor_def start_def)

lemma close_progress:
  "step (ProcessClose p) s = Some s' \<Longrightarrow> min (maxRetries s) (retryCount s + 2) \<le> retryCount s'"
  by (auto simp: handler_defs Let_def split: if_splits)

lemma close_exhausted:
  "step (ProcessClose p) s = Some s' \<Longrightarrow> maxRetries s \<le> retryCount s \<Longrightarrow>
     fallbackMode s' \<and> \<not> isConnected s' \<and> lastError s' = Some ''Max retries reached'' \<and>
     retryCount s' = retryCount s \<and> restartTimers s' = restartTimers s \<and>
     startCalls s' = startCalls s"
  by (auto simp: handler_defs Let_def split: if_splits)

text \<open>
  Claim C1, as the code has it. In every state that the server reaches from its start,
  \<open>retryCount\<close> is at most \<open>maxRetries\<close>, which is 3. When \<open>retryCount\<close> equals
  \<open>maxRetries\<close>, the exit of a child schedules no \<open>start()\<close>, calls none and leaves the
  count as it is. The count goes back to 0 in \<open>restart()\<close>, which calls \<open>start()\<close>, and
  also in the handlers of the readiness marker.
\<close>

theorem retry_budget:
  assumes "exec es initial = Some s"
  shows "retryCount s \<le> maxRetries s \<and> maxRetries s = 3 \<and>
         (retryCount s = maxRetries s \<longrightarrow>
            (\<forall>p s'. step (ProcessClose p) s = Some s' \<longrightarrow>
               retryCount s' = retryCount s \<and> restartTimers s' = restartTimers s \<and>
               startCalls s' = startCalls s)) \<and>
         retryCount (restart spawnError s) = 0 \<and>
         startCalls (restart spawnError s) = Suc (startCalls s) \<and>
         retryCount (onReady2 (onReady1 s)) = 0"
proof -
  have b: "retryCount s \<le> maxRetries s"
    using exec_retry_bound [OF assms] by (simp add: initial_fields)
  have m: "maxRetries s = 3"
    using exec_maxRetries [OF assms] by (simp add: initial_fields)
  have c: "\<forall>p s'. retryCount s = maxRetries s \<longrightarrow> step (ProcessClose p) s = Some s' \<longrightarrow>
               retryCount s' = retryCount s \<and> restartTimers s' = restartTimers s \<and>
               startCalls s' = startCalls s"
    using close_exhausted by (metis order_refl)
  have r: "retryCount (restart spawnError s) = 0 \<and>
         startCalls (restart spawnError s) = Suc (startCalls s) \<and>
         retryCount (onReady2 (onReady1 s)) = 0"
    by (simp add: handler_defs Let_def split: option.splits)
  from b m c r show ?thesis by blast
qed

text \<open>
  The theorem at work: two exits exhaust the budget of the server, and the exit of the
  third child leaves the timers and the count of \<open>start()\<close> calls alone.
\<close>

theorem retry_budget_witness:
  "exec [ProcessClose 0, RestartTimer None, RestartTimer None, ProcessClose 1] initial =
     Some \<lparr> isConnected = False, mcpProcess = Some \<lparr> pid = 2, killed = False \<rparr>,
            requestId = 0, retryCount = 3, maxRetries = 3, healthCheckInterval = False,
            fallbackMode = False, connectionAttempts = 0, maxConnectionAttempts = 20,
            lastError = None, live = [2], nextPid = 3, restartTimers = 1,
            connectTimers = 3, startCalls = 3, listeners = [], toolTimers = [],
            settled = [] \<rparr> \<and>
   step (ProcessClose 2)
     \<lparr> isConnected = False, mcpProcess = Some \<lparr> pid = 2, killed = False \<rparr>,
       requestId = 0, retryCount = 3, maxRetries = 3, healthCheckInterval = False,
       fallbackMode = False, connectionAttempts = 0, maxConnectionAttempts = 20,
       lastError = None, live = [2], nextPid = 3, restartTimers = 1,
       connectTimers = 3, startCalls = 3, listeners = [], toolTimers = [],
       settled = [] \<rparr> =
     Some \<lparr> isConnected = False, mcpProcess = Some \<lparr> pid = 2, killed = False \<rparr>,
            requestId = 0, retryCount = 3, maxRetries = 3, healthCheckInterval = False,
            fallbackMode = True, connectionAttempts = 0, maxConnectionAttempts = 20,
            lastError = Some ''Max retries reached'', live = [], nextPid = 3,
            restartTimers = 1, connectTimers = 3, startCalls = 3, listeners = [],
            toolTimers = [], settled = [] \<rparr>"
proof -
  let ?s = "\<lparr> isConnected = False, mcpProcess = Some \<lparr> pid = 2, killed = False \<rparr>,
            requestId = 0, retryCount = 3, maxRetries = 3, healthCheckInterval = False,
            fallbackMode = False, connectionAttempts = 0, maxConnectionAttempts = 20,
            lastError = None, live = [2], nextPid = 3, restartTimers = 1,
            connectTimers = 3, startCalls = 3, listeners = [], toolTimers = [],
            settled = [] \<rparr>"
  have h: "exec [ProcessClose 0, RestartTimer None, RestartTimer None, ProcessClose 1] initial = Some ?s"
    by code_simp
  have c: "step (ProcessClose 2) ?s =
     Some \<lparr> isConnected = False, mcpProcess = Some \<lparr> pid = 2, killed = False \<rparr>,
            requestId = 0, retryCount = 3, maxRetries = 3, healthCheckInterval = False,
            fallbackMode = True, connectionAttempts = 0, maxConnectionAttempts = 20,
            lastError = Some ''Max retries reached'', live = [], nextPid = 3,
            restartTimers = 1, connectTimers = 3, startCalls = 3, listeners = [],
            toolTimers = [], settled = [] \<rparr>"
    by code_simp
  show ?thesis using retry_budget [OF h, of None] h c by simp
qed

text \<open>
  Claim C1 says that only \<open>restart()\<close> resets the budget, and that no exit schedules
  \<open>start()\<close> once the budget is exhausted. After two exits the count is 3; the readiness
  marker of a child that an earlier timer started sets it to 0 with no \<open>restart()\<close>, and
  the next exit schedules two more calls of \<open>start()\<close>, of which the first then runs.
\<close>

theorem retry_budget_counterexample:
  "map_option retryCount
     (exec [ProcessClose 0, RestartTimer None, RestartTimer None, ProcessClose 1] initial) = Some 3 \<and>
   map_option maxRetries
     (exec [ProcessClose 0, RestartTimer None, RestartTimer None, ProcessClose 1] initial) = Some 3 \<and>
   map_option restartTimers
     (exec [ProcessClose 0, RestartTimer None, RestartTimer None, ProcessClose 1] initial) = Some 1 \<and>
   map_option retryCount
     (exec [ProcessClose 0, RestartTimer None, RestartTimer None, ProcessClose 1,
            ProcessReady 2] initial) = Some 0 \<and>
   map_option restartTimers
     (exec [ProcessClose 0, RestartTimer None, RestartTimer None, ProcessClose 1,
            ProcessReady 2, ProcessClose 2] initial) = Some 3 \<and>
   map_option startCalls
     (exec [ProcessClose 0, RestartTimer None, RestartTimer None, ProcessClose 1,
            ProcessReady 2, ProcessClose 2, RestartTimer None] initial) = Some 4"
  by code_simp

text \<open>
  Claim C2. When three children exit in a row, with no readiness marker and no
  \<open>restart()\<close> in between but whatever timers, errors and tool calls, the third exit
  leaves the server in fallback mode, not connected, with \<open>lastError\<close> equal to
  \<open>Max retries reached\<close>. The server stays in fallback mode through the events that
  follow, and a fourth exit schedules no restart, calls no \<open>start()\<close> and gives the same
  \<open>lastError\<close>.
\<close>

theorem three_exits:
  assumes m: "maxRetries s = 3"
    and q: "list_all quiet es1" "list_all quiet es2" "list_all quiet es3"
    and run: "exec (ProcessClose p1 # es1 @ ProcessClose p2 # es2 @ [ProcessClose p3]) s = Some s'"
    and after: "exec es3 s' = Some t" "step (ProcessClose p4) t = Some t'"
  shows "fallbackMode s' \<and> \<not> isConnected s' \<and> lastError s' = Some ''Max retries reached'' \<and>
         fallbackMode t \<and> \<not> isConnected t \<and>
         restartTimers t' = restartTimers t \<and> startCalls t' = startCalls t \<and>
         fallbackMode t' \<and> \<not> isConnected t' \<and> lastError t' = Some ''Max retries reached''"
proof -
  from run obtain a where a: "step (ProcessClose p1) s = Some a"
    and r1: "exec (es1 @ ProcessClose p2 # es2 @ [ProcessClose p3]) a = Some s'"
    by (auto split: option.splits)
  from r1 obtain b where b: "exec es1 a = Some b"
    and r2: "exec (ProcessClose p2 # es2 @ [ProcessClose p3]) b = Some s'"
    by (auto simp: exec_append split: option.splits)
  from r2 obtain c where c: "step (ProcessClose p2) b = Some c"
    and r3: "exec (es2 @ [ProcessClose p3]) c = Some s'"
    by (auto split: option.splits)
  from r3 obtain d where d: "exec es2 c = Some d"
    and r4: "step (ProcessClose p3) d = Some s'"
    by (auto simp: exec_append split: option.splits)
  have ma: "maxRetries a = 3" using step_maxRetries [OF a] m by simp
  have mb: "maxRetries b = 3" using exec_maxRetries [OF b] ma by simp
  have mc: "maxRetries c = 3" using step_maxRetries [OF c] mb by simp
  have md: "maxRetries d = 3" using exec_maxRetries [OF d] mc by simp
  have ms: "maxRetries s' = 3" using step_maxRetries [OF r4] md by simp
  have mt: "maxRetries t = 3" using exec_maxRetries [OF after(1)] ms by simp
  have "2 \<le> retryCount a" using close_progress [OF a] m by simp
  then have "2 \<le> retryCount b" using exec_quiet_retryCount [OF b q(1)] by simp
  then have "3 \<le> retryCount c" using close_progress [OF c] mb by simp
  then have d3: "maxRetries d \<le> retryCount d" using exec_quiet_retryCount [OF d q(2)] md by simp
  note e = close_exhausted [OF r4 d3]
  then have "maxRetries t \<le> retryCount t"
    using exec_quiet_retryCount [OF after(1) q(3)] d3 md mt by simp
  note f = close_exhausted [OF after(2) this]
  have g: "fallbackMode t \<and> \<not> isConnected t"
    using exec_quiet_fallback [OF after(1) q(3)] e by simp
  from e f g show ?thesis by simp
qed

text \<open>The scenario of claim C2 from the start of the server, each child started by a restart timer.\<close>

theorem three_exits_witness:
  "maxRetries initial = 3 \<and> list_all quiet [RestartTimer None] \<and>
   exec (ProcessClose 0 # [RestartTimer None] @ ProcessClose 1 # [RestartTimer None] @
         [ProcessClose 2]) initial =
     Some \<lparr> isConnected = False, mcpProcess = Some \<lparr> pid = 2, killed = False \<rparr>,
            requestId = 0, retryCount = 3, maxRetries = 3, healthCheckInterval = False,
            fallbackMode = True, connectionAttempts = 0, maxConnectionAttempts = 20,
            lastError = Some ''Max retries reached'', live = [], nextPid = 3,
            restartTimers = 1, connectTimers = 3, startCalls = 3, listeners = [],
            toolTimers = [], settled = [] \<rparr> \<and>
   map_option restartTimers
     (exec (ProcessClose 0 # [RestartTimer None] @ ProcessClose 1 # [RestartTimer None] @
            [ProcessClose 2] @ [RestartTimer None]) initial) = Some 0 \<and>
   map_option restartTimers
     (exec (ProcessClose 0 # [RestartTimer None] @ ProcessClose 1 # [RestartTimer None] @
            [ProcessClose 2] @ [RestartTimer None, ProcessClose 3]) initial) = Some 0"
proof -
  let ?s' = "\<lparr> isConnected = False, mcpProcess = Some \<lparr> pid = 2, killed = False \<rparr>,
            requestId = 0, retryCount = 3, maxRetries = 3, healthCheckInterval = False,
            fallbackMode = True, connectionAttempts = 0, maxConnectionAttempts = 20,
            lastError = Some ''Max retries reached'', live = [], nextPid = 3,
            restartTimers = 1, connectTimers = 3, startCalls = 3, listeners = [],
            toolTimers = [], settled = [] \<rparr>"
  let ?t = "\<lparr> isConnected = False, mcpProcess = Some \<lparr> pid = 3, killed = False \<rparr>,
            requestId = 0, retryCount = 3, maxRetries = 3, healthCheckInterval = False,
            fallbackMode = True, connectionAttempts = 0, maxConnectionAttempts = 20,
            lastError = Some ''Max retries reached'', live = [3], nextPid = 4,
            restartTimers = 0, connectTimers = 4, startCalls = 4, listeners = [],
            toolTimers = [], settled = [] \<rparr>"
  let ?t' = "\<lparr> isConnected = False, mcpProcess = Some \<lparr> pid = 3, killed = False \<rparr>,
            requestId = 0, retryCount = 3, maxRetries = 3, healthCheckInterval = False,
            fallbackMode = True, connectionAttempts = 0, maxConnectionAttempts = 20,
            lastError = Some ''Max retries reached'', live = [], nextPid = 4,
            restartTimers = 0, connectTimers = 4, startCalls = 4, listeners = [],
            toolTimers = [], settled = [] \<rparr>"
  have m: "maxRetries initial = 3" by (simp add: initial_fields)
  have q: "list_all quiet [RestartTimer None]" by simp
  have run: "exec (ProcessClose 0 # [RestartTimer None] @ ProcessClose 1 # [RestartTimer None] @
         [ProcessClose 2]) initial = Some ?s'"
    by code_simp
  have a1: "exec [RestartTimer None] ?s' = Some ?t" by code_simp
  have a2: "step (ProcessClose 3) ?t = Some ?t'" by code_simp
  have e1: "exec (ProcessClose 0 # [RestartTimer None] @ ProcessClose 1 # [RestartTimer None] @
            [ProcessClose 2] @ [RestartTimer None]) initial = Some ?t"
    by code_simp
  have e2: "exec (ProcessClose 0 # [RestartTimer None] @ ProcessClose 1 # [RestartTimer None] @
            [ProcessClose 2] @ [RestartTimer None, ProcessClose 3]) initial = Some ?t'"
    by code_simp
  show ?thesis
    using three_exits [OF m q q q run a1 a2] m q run
    by (simp only: e1 e2 option.map) simp
qed

section \<open>Properties of the tool-process client\<close>

lemma callMcpTool_id:
  "callMcpTool s = Inr (i, s') \<Longrightarrow> i = Suc (requestId s) \<and> requestId s' = i"
  by (auto simp: callMcpTool_def settle_def Let_def split: if_splits option.splits)

lemma assignedIds_None: "step e s = None \<Longrightarrow> assignedIds (e # es) s = []"
  by (simp only: assignedIds.simps option.case)

lemma assignedIds_other:
  "step e s = Some s' \<Longrightarrow> e \<noteq> CallTool \<Longrightarrow> assignedIds (e # es) s = assignedIds es s'"
  by (simp only: assignedIds.simps option.case if_False append_Nil)

lemma assignedIds_refused:
  "callMcpTool s = Inl err \<Longrightarrow> assignedIds (CallTool # es) s = assignedIds es s"
  by (simp only: assignedIds.simps step.simps sum.case option.case if_True refl append_Nil)

lemma assignedIds_call:
  "callMcpTool s = Inr (i, t) \<Longrightarrow> assignedIds (CallTool # es) s = i # assignedIds es t"
  by (simp only: assignedIds.simps step.simps sum.case prod.case option.case if_True refl
        append_Cons append_Nil)

lemma assignedIds_bounds:
  "sorted_wrt (<) (assignedIds es s) \<and> (\<forall>i \<in> set (assignedIds es s). requestId s < i)"
proof (induction es arbitrary: s)
  case Nil
  show ?case by simp
next
  case (Cons e es)
  show ?case
  proof (cases "step e s")
    case None
    then show ?thesis by (simp only: assignedIds_None) simp
  next
    case (Some s')
    have le: "requestId s \<le> requestId s'" using step_requestId_mono [OF Some] .
    show ?thesis
    proof (cases "e = CallTool")
      case False
      have "assignedIds (e # es) s = assignedIds es s'" using assignedIds_other [OF Some False] .
      then show ?thesis using Cons.IH [of s'] le by fastforce
    next
      case True
      show ?thesis
      proof (cases "callMcpTool s")
        case (Inl err)
        have "assignedIds (e # es) s = assignedIds es s"
          using assignedIds_refused [OF Inl] True by simp
        then show ?thesis using Cons.IH [of s] by simp
      next
        case (Inr r)
        obtain i t where r: "callMcpTool s = Inr (i, t)" using Inr by (cases r) simp
        have eq: "assignedIds (e # es) s = i # assignedIds es t"
          using assignedIds_call [OF r] True by simp
        have i: "i = Suc (requestId s)" "requestId t = i" using callMcpTool_id [OF r] by simp_all
        have "\<forall>j \<in> set (assignedIds es t). i < j" using Cons.IH [of t] i by simp
        then show ?thesis using eq i Cons.IH [of t] by fastforce
      qed
    qed
  qed
qed

text \<open>
  Claim C4. Along every run of the server from any state, with calls of \<open>restart()\<close>,
  exits and readiness markers among the events, the request ids that the tool calls are
  given are in strictly increasing order and all greater than the value the counter had
  before: each id is greater than every id given earlier, and none is given twice.
  (The counter is a non-negative integer; doubles count exactly up to \<open>2 ^ 53\<close>.)
\<close>

theorem correlation_ids_increase: "sorted_wrt (<) (requestId s # assignedIds es s)"
  using assignedIds_bounds [of es s] by simp


text \<open>A run with four calls, one of them refused after \<open>restart()\<close> while not connected.\<close>

theorem correlation_ids_increase_witness:
  "sorted_wrt (<) (requestId initial #
      assignedIds [ProcessReady 0, CallTool, CallTool, Restart None, CallTool, ProcessReady 1,
                   CallTool] initial) \<and>
   assignedIds [ProcessReady 0, CallTool, CallTool, Restart None, CallTool, ProcessReady 1,
                CallTool] initial = [1, 2, 3]"
proof -
  have "assignedIds [ProcessReady 0, CallTool, CallTool, Restart None, CallTool, ProcessReady 1,
                CallTool] initial = [1, 2, 3]"
    by code_simp
  then show ?thesis
    using correlation_ids_increase [of initial "[ProcessReady 0, CallTool, CallTool, Restart None, CallTool, ProcessReady 1, CallTool]"]
    by simp
qed

text \<open>
  Claim C5 on the code. A tool call whose response never comes is rejected with
  \<open>MCP request timeout\<close> when its timer fires, and the timer is gone, but the listener of
  the call stays attached to the standard output of the child: the timer callback does
  not remove it. When the response arrives instead, the listener is removed.
\<close>

theorem timeout_leaves_listener:
  "map_option listeners (exec [ProcessReady 0, CallTool, ToolTimeout 1] initial) = Some [(0, 1)] \<and>
   map_option settled (exec [ProcessReady 0, CallTool, ToolTimeout 1] initial) =
     Some [(1, Rejected ''MCP request timeout'')] \<and>
   map_option toolTimers (exec [ProcessReady 0, CallTool, ToolTimeout 1] initial) = Some [] \<and>
   map_option listeners (exec [ProcessReady 0, CallTool, ToolResponse 0 1 None] initial) = Some []"
  by code_simp

text \<open>
  A response that comes after \<open>restart()\<close> finds the new child in \<open>mcpProcess\<close>: the
  promise is resolved and the timer cleared, and the listener stays on the old child.
\<close>

lemma response_after_restart:
  "map_option listeners
     (exec [ProcessReady 0, CallTool, Restart None, ToolResponse 0 1 None] initial) = Some [(0, 1)] \<and>
   map_option settled
     (exec [ProcessReady 0, CallTool, Restart None, ToolResponse 0 1 None] initial) =
     Some [(1, Resolved)] \<and>
   map_option toolTimers
     (exec [ProcessReady 0, CallTool, Restart None, ToolResponse 0 1 None] initial) = Some []"
  by code_simp

section \<open>Properties of the intent classifier\<close>

lemma toLowerCase_char_fix: "toLowerCase_char CHR ''0'' = CHR ''0''" "toLowerCase_char CHR ''x'' = CHR ''x''"
  by (simp_all add: toLowerCase_char_def)

lemma hexDigit_lower: "hexDigit c \<Longrightarrow> hexDigit (toLowerCase_char c)"
  by (auto simp: hexDigit_def toLowerCase_char_def Let_def)

lemma addressAt_lower: "addressAt s \<Longrightarrow> addressAt (toLowerCase s)"
  unfolding addressAt_def toLowerCase_def
  by (auto simp: take_map drop_map list_all_iff toLowerCase_char_fix hexDigit_lower simp flip: map_map)


lemma addressAt_append: "addressAt s \<Longrightarrow> addressAt (s @ t)"
  by (auto simp: addressAt_def)

lemma toLowerCase_take_drop: "toLowerCase (take n (drop k s)) = take n (drop k (toLowerCase s))"
  by (simp add: toLowerCase_def take_map drop_map)

lemma toLowerCase_drop: "toLowerCase (drop k s) = drop k (toLowerCase s)"
  by (simp add: toLowerCase_def drop_map)

lemma length_toLowerCase: "length (toLowerCase s) = length s"
  by (simp add: toLowerCase_def)

lemma match_address_first:
  "addressAt (drop n s) \<Longrightarrow>
     \<exists>k\<le>n. match_address s = Some (take 42 (drop k s)) \<and> addressAt (drop k s) \<and>
            (\<forall>j<k. \<not> addressAt (drop j s))"
proof (induction s arbitrary: n)
  case Nil
  then show ?case by (simp add: addressAt_def)
next
  case (Cons c cs)
  show ?case
  proof (cases "addressAt (c # cs)")
    case True
    then show ?thesis by auto
  next
    case False
    with Cons.prems obtain m where n: "n = Suc m" by (cases n) auto
    with Cons.prems have "addressAt (drop m cs)" by simp
    from Cons.IH [OF this] obtain k where k: "k \<le> m"
      "match_address cs = Some (take 42 (drop k cs))" "addressAt (drop k cs)"
      "\<forall>j<k. \<not> addressAt (drop j cs)"
      by blast
    have "\<forall>j<Suc k. \<not> addressAt (drop j (c # cs))"
    proof (intro allI impI)
      fix j assume "j < Suc k"
      then show "\<not> addressAt (drop j (c # cs))" using False k(4) by (cases j) auto
    qed
    then show ?thesis using False k n by (intro exI [of _ "Suc k"]) simp
  qed
qed

lemma context_of_match:
  "match_address (toLowerCase message) = Some x \<Longrightarrow>
     address (getBlockchainContext message) = Some x \<and>
     needsData (getBlockchainContext message) \<and>
     type (getBlockchainContext message) \<in> {Wallet, Portfolio, Nft}"
  by (simp add: getBlockchainContext_def Let_def)

text \<open>
  Claim C6, as the code has it. For every message that contains a valid address (the
  characters \<open>0x\<close> and 40 hexadecimal digits), the context has a type other than
  \<open>general\<close> (it is \<open>wallet\<close>, \<open>portfolio\<close> or \<open>nft\<close>), and its address is the
  lower-case form of 42 characters of the message that start at or before the given
  address, at the leftmost place where the pattern matches the lower-cased message. When
  the pattern matches nowhere before the given address, it is the lower-case form of that
  address.
\<close>

theorem classify_address:
  assumes a: "addressAt a" "length a = 42"
  shows "type (getBlockchainContext (pre @ a @ post)) \<noteq> General \<and>
         type (getBlockchainContext (pre @ a @ post)) \<in> {Wallet, Portfolio, Nft} \<and>
         (\<exists>k\<le>length pre.
            address (getBlockchainContext (pre @ a @ post)) =
              Some (toLowerCase (take 42 (drop k (pre @ a @ post)))) \<and>
            addressAt (toLowerCase (drop k (pre @ a @ post))) \<and>
            (\<forall>j<k. \<not> addressAt (toLowerCase (drop j (pre @ a @ post))))) \<and>
         ((\<forall>j<length pre. \<not> addressAt (toLowerCase (drop j (pre @ a @ post)))) \<longrightarrow>
            address (getBlockchainContext (pre @ a @ post)) = Some (toLowerCase a))"
proof -
  define m where "m = pre @ a @ post"
  have "addressAt (toLowerCase (a @ post))"
    using a(1) by (intro addressAt_lower addressAt_append)
  then have "addressAt (drop (length pre) (toLowerCase m))"
    by (simp add: toLowerCase_def m_def)
  from match_address_first [OF this] obtain k where k: "k \<le> length pre"
    "match_address (toLowerCase m) = Some (take 42 (drop k (toLowerCase m)))"
    "addressAt (drop k (toLowerCase m))"
    "\<forall>j<k. \<not> addressAt (drop j (toLowerCase m))"
    by blast
  note c = context_of_match [OF k(2)]
  have adr: "address (getBlockchainContext m) = Some (toLowerCase (take 42 (drop k m)))"
    using c by (simp only: toLowerCase_take_drop)
  have first: "\<forall>j<k. \<not> addressAt (toLowerCase (drop j m))"
    using k(4) by (simp only: toLowerCase_drop)
  have here: "addressAt (toLowerCase (drop k m))"
    using k(3) by (simp only: toLowerCase_drop)
  have exact: "address (getBlockchainContext m) = Some (toLowerCase a)"
    if none: "\<forall>j<length pre. \<not> addressAt (toLowerCase (drop j m))"
  proof -
    have "\<not> k < length pre" using none k(3) by (auto simp only: toLowerCase_drop)
    then have "k = length pre" using k(1) by simp
    moreover have "take 42 (drop (length pre) m) = a" using a(2) by (simp add: m_def)
    ultimately show ?thesis using adr by simp
  qed
  have ty: "type (getBlockchainContext m) \<in> {Wallet, Portfolio, Nft}" using c by simp
  then have "type (getBlockchainContext m) \<noteq> General" by auto
  with ty adr first here exact k(1) show ?thesis unfolding m_def by blast
qed

text \<open>A message whose address has no upper-case letter: the address comes back as it is.\<close>

theorem classify_address_witness:
  "addressAt ''0xde0b295669a9fd93d5f28d9ec85e40f4cb697bae'' \<and>
   length ''0xde0b295669a9fd93d5f28d9ec85e40f4cb697bae'' = 42 \<and>
   type (getBlockchainContext ''nft 0xde0b295669a9fd93d5f28d9ec85e40f4cb697bae please'') = Nft \<and>
   address (getBlockchainContext ''nft 0xde0b295669a9fd93d5f28d9ec85e40f4cb697bae please'') =
     Some ''0xde0b295669a9fd93d5f28d9ec85e40f4cb697bae''"
proof -
  have h1: "addressAt ''0xde0b295669a9fd93d5f28d9ec85e40f4cb697bae''" by code_simp
  have h2: "length ''0xde0b295669a9fd93d5f28d9ec85e40f4cb697bae'' = 42" by simp
  have p0: "\<not> addressAt (toLowerCase (drop 0 (''nft '' @ ''0xde0b295669a9fd93d5f28d9ec85e40f4cb697bae'' @ '' please'')))"
    by code_simp
  have p1: "\<not> addressAt (toLowerCase (drop 1 (''nft '' @ ''0xde0b295669a9fd93d5f28d9ec85e40f4cb697bae'' @ '' please'')))"
    by code_simp
  have p2: "\<not> addressAt (toLowerCase (drop 2 (''nft '' @ ''0xde0b295669a9fd93d5f28d9ec85e40f4cb697bae'' @ '' please'')))"
    by code_simp
  have p3: "\<not> addressAt (toLowerCase (drop 3 (''nft '' @ ''0xde0b295669a9fd93d5f28d9ec85e40f4cb697bae'' @ '' please'')))"
    by code_simp
  have "j = 0 \<or> j = 1 \<or> j = 2 \<or> j = 3" if "j < length ''nft ''" for j
    using that by auto
  then have h3: "\<forall>j<length ''nft ''. \<not> addressAt (toLowerCase (drop j (''nft '' @ ''0xde0b295669a9fd93d5f28d9ec85e40f4cb697bae'' @ '' please'')))"
    using p0 p1 p2 p3 by blast
  have h4: "type (getBlockchainContext ''nft 0xde0b295669a9fd93d5f28d9ec85e40f4cb697bae please'') = Nft"
    by code_simp
  have h5: "toLowerCase ''0xde0b295669a9fd93d5f28d9ec85e40f4cb697bae'' = ''0xde0b295669a9fd93d5f28d9ec85e40f4cb697bae''"
    by code_simp
  show ?thesis
    using classify_address [OF h1 h2, of "''nft ''" "'' please''"] h1 h3 h4 h5 by simp
qed

text \<open>
  Claim C6 says that the address is returned exactly as it appears in the message. The
  function works on \<open>lowerMessage\<close> throughout, the pattern of the address included, so
  an address written with upper-case digits comes back in lower case.
\<close>

theorem classify_address_counterexample:
  "addressAt ''0xDE0B295669A9FD93D5F28D9EC85E40F4CB697BAE'' \<and>
   length ''0xDE0B295669A9FD93D5F28D9EC85E40F4CB697BAE'' = 42 \<and>
   address (getBlockchainContext ''balance of 0xDE0B295669A9FD93D5F28D9EC85E40F4CB697BAE'') \<noteq>
     Some ''0xDE0B295669A9FD93D5F28D9EC85E40F4CB697BAE'' \<and>
   address (getBlockchainContext ''balance of 0xDE0B295669A9FD93D5F28D9EC85E40F4CB697BAE'') =
     Some ''0xde0b295669a9fd93d5f28d9ec85e40f4cb697bae'' \<and>
   type (getBlockchainContext ''balance of 0xDE0B295669A9FD93D5F28D9EC85E40F4CB697BAE'') = Wallet"
  by code_simp

text \<open>
  Claim C7, as the code has it. The message
  \<open>portfolio 0xABCDEF0123456789ABCDEF0123456789ABCDEF01\<close> is classified as a portfolio
  query on ethereum with \<open>multiChain\<close> true, the keyword \<open>portfolio\<close> setting the flag;
  its address is the lower-case form \<open>0xabcdef0123456789abcdef0123456789abcdef01\<close>.
\<close>

theorem portfolio_scenario:
  "getBlockchainContext ''portfolio 0xABCDEF0123456789ABCDEF0123456789ABCDEF01'' =
     \<lparr> needsData = True, chain = Some ''ethereum'', type = Portfolio,
       address = Some ''0xabcdef0123456789abcdef0123456789abcdef01'',
       multiChain = Some True \<rparr>"
  by code_simp

text \<open>Claim C7 says that the address of the context is the address string of the message.\<close>

theorem portfolio_scenario_counterexample:
  "address (getBlockchainContext ''portfolio 0xABCDEF0123456789ABCDEF0123456789ABCDEF01'') \<noteq>
     Some ''0xABCDEF0123456789ABCDEF0123456789ABCDEF01''"
  by code_simp

section \<open>Properties of the fallback responder\<close>

lemma str_includes_append: "str_includes (xs @ pat @ ys) pat"
proof (induction xs)
  case Nil
  show ?case
  proof (cases "pat @ ys")
    case Nil
    then show ?thesis by simp
  next
    case (Cons a list)
    have "startsWith (pat @ ys) pat" by (simp add: startsWith_def)
    then have "str_includes (a # list) pat" unfolding Cons by simp
    then show ?thesis using Cons by simp
  qed
next
  case (Cons x xs)
  then show ?case by simp
qed

text \<open>
  Claim C10. When the environment variable \<open>TATUM_API_KEY\<close> is not set, or is the
  placeholder \<open>your_tatum_api_key_here\<close>, \<open>getMultiChainWalletFallback\<close> returns the
  fixed mock response for the address and sends no request to the data source. The mock
  response shows a total portfolio value of $0.00, 0 of 6 active chains and 0 tokens.
\<close>

theorem mock_without_key:
  assumes "TATUM_API_KEY = None \<or> TATUM_API_KEY = Some ''your_tatum_api_key_here''"
  shows "getMultiChainWalletFallback TATUM_API_KEY api addr = (Text (getMockWalletResponse addr), []) \<and>
         str_includes (getMockWalletResponse addr)
           (''**Total Portfolio Value:** $0.00'' @ nl @ ''**Active Chains:** 0/6'' @ nl @
            ''**Total Tokens:** 0'' @ nl)"
proof -
  have "getMockWalletResponse addr =
      (pictograph_money @ '' **Multi-Chain Wallet Analysis (Mock Data)**'' @ nl @ nl @
       ''**Address:** '' @ [CHR 0x60] @ addr @ [CHR 0x60] @ nl) @
      (''**Total Portfolio Value:** $0.00'' @ nl @ ''**Active Chains:** 0/6'' @ nl @
       ''**Total Tokens:** 0'' @ nl) @
      (nl @ ''**Chain Breakdown:**'' @ nl @
       pictograph_bullet @ '' No active chains found'' @ nl @ nl @
       pictograph_warning @ '' **API Key Not Configured:**'' @ nl @
       pictograph_bullet @ '' Please set TATUM_API_KEY in your .env file'' @ nl @
       pictograph_bullet @ '' Get a free API key from: https://tatum.io/'' @ nl @
       pictograph_bullet @ '' Example: TATUM_API_KEY=your_api_key_here'' @ nl @ nl @
       ''*This is mock data. Configure your API key for real blockchain data.*'')"
    by (simp add: getMockWalletResponse_def)
  then have "str_includes (getMockWalletResponse addr)
           (''**Total Portfolio Value:** $0.00'' @ nl @ ''**Active Chains:** 0/6'' @ nl @
            ''**Total Tokens:** 0'' @ nl)"
    by (simp only: str_includes_append)
  then show ?thesis using assms by (auto simp: getMultiChainWalletFallback_def)
qed

text \<open>The server without the environment variable.\<close>

theorem mock_without_key_witness:
  "getMultiChainWalletFallback None [] ''0xd8da6bf26964af9d7eed9e03e53415d37aa96045'' =
     (Text (getMockWalletResponse ''0xd8da6bf26964af9d7eed9e03e53415d37aa96045''), [])"
  using mock_without_key [of None "[]" "''0xd8da6bf26964af9d7eed9e03e53415d37aa96045''"] by simp

text \<open>With a key of its own, the function sends its twelve requests.\<close>

lemma configured_key_requests:
  "TATUM_API_KEY = Some k \<Longrightarrow> k \<noteq> [] \<Longrightarrow> k \<noteq> ''your_tatum_api_key_here'' \<Longrightarrow>
     length (snd (getMultiChainWalletFallback TATUM_API_KEY api addr)) = 12"
  by (simp add: getMultiChainWalletFallback_def walletRequests_def chains_def)

lemma callsFail_zero: "callsFail r \<Longrightarrow> walletChain r = Inr zeroResult"
  by (auto simp: callsFail_def walletChain_def walletResult_def zeroResult_def number_or_0_def
        string_or_def Let_def split: axios.splits)

lemma zero_not_active: "\<not> isActive zeroResult"
  by (simp add: isActive_def zeroResult_def)

lemma map_of_keyed: "c \<in> set cs \<Longrightarrow> map_of (map (\<lambda>c. (c, f c)) cs) c = Some (f c)"
  by (induction cs) auto

lemma disjoint_filters:
  "(\<And>x. P x \<Longrightarrow> \<not> Q x) \<Longrightarrow> length (filter P xs) + length (filter Q xs) \<le> length xs"
  by (induction xs) auto

lemma chainData_keyed:
  "chainData (analyseWallet api) =
     map (\<lambda>c. (c, case walletChain (reply_of api c) of Inl e \<Rightarrow> zeroResult | Inr x \<Rightarrow> x)) chains"
  by (simp add: analyseWallet_def Let_def comp_def)

lemma activeChains_count:
  "activeChains (analyseWallet api) =
     length (filter (\<lambda>c. case walletChain (reply_of api c) of Inl e \<Rightarrow> False | Inr x \<Rightarrow> isActive x) chains)"
  by (simp add: analyseWallet_def Let_def filter_map comp_def)

text \<open>
  Claim C3, as the code has it. With a configured key, whatever the data source does,
  \<open>getMultiChainWalletFallback\<close> returns an analysis and throws nothing. A chain
  whose two requests both fail enters the analysis with the zero result, so it is not
  active: the active chains are the chains that answered and whose data show a positive
  value or at least one token, and together with the failed chains they are at most 6.
\<close>

theorem wallet_fan_out:
  assumes "TATUM_API_KEY = Some k" "k \<noteq> []" "k \<noteq> ''your_tatum_api_key_here''"
  shows "getMultiChainWalletFallback TATUM_API_KEY api addr =
           (Analysis (analyseWallet api), walletRequests addr) \<and>
         (\<forall>c\<in>set chains. callsFail (reply_of api c) \<longrightarrow>
            map_of (chainData (analyseWallet api)) c = Some zeroResult) \<and>
         activeChains (analyseWallet api) =
           length (filter (\<lambda>c. \<not> callsFail (reply_of api c) \<and>
              (case walletChain (reply_of api c) of Inl e \<Rightarrow> False | Inr x \<Rightarrow> isActive x)) chains) \<and>
         activeChains (analyseWallet api) +
           length (filter (\<lambda>c. callsFail (reply_of api c)) chains) \<le> 6"
proof -
  have 1: "getMultiChainWalletFallback TATUM_API_KEY api addr =
           (Analysis (analyseWallet api), walletRequests addr)"
    using assms by (simp add: getMultiChainWalletFallback_def)
  have 2: "\<forall>c\<in>set chains. callsFail (reply_of api c) \<longrightarrow>
            map_of (chainData (analyseWallet api)) c = Some zeroResult"
    by (simp add: chainData_keyed map_of_keyed callsFail_zero)
  have eq: "(case walletChain (reply_of api c) of Inl e \<Rightarrow> False | Inr x \<Rightarrow> isActive x) =
        (\<not> callsFail (reply_of api c) \<and>
              (case walletChain (reply_of api c) of Inl e \<Rightarrow> False | Inr x \<Rightarrow> isActive x))" for c
    using callsFail_zero [of "reply_of api c"] zero_not_active by auto
  have 3: "activeChains (analyseWallet api) =
           length (filter (\<lambda>c. \<not> callsFail (reply_of api c) \<and>
              (case walletChain (reply_of api c) of Inl e \<Rightarrow> False | Inr x \<Rightarrow> isActive x)) chains)"
    unfolding activeChains_count using eq by presburger
  have "length (filter (\<lambda>c. \<not> callsFail (reply_of api c) \<and>
              (case walletChain (reply_of api c) of Inl e \<Rightarrow> False | Inr x \<Rightarrow> isActive x)) chains) +
        length (filter (\<lambda>c. callsFail (reply_of api c)) chains) \<le> length chains"
    by (rule disjoint_filters) simp
  then have 4: "activeChains (analyseWallet api) +
           length (filter (\<lambda>c. callsFail (reply_of api c)) chains) \<le> 6"
    using 3 by (simp add: chains_def)
  from 1 2 3 4 show ?thesis by blast
qed

text \<open>A data source that answers for one chain only, where the wallet has a value.\<close>

theorem wallet_fan_out_witness:
  "callsFail (reply_of
     [(''bsc'', \<lparr> nativeReply = Resolves (Some \<lparr> balance = Some ''1.5'', usdValue = Some 900 \<rparr>),
                 tokenReply = Resolves Absent \<rparr>)] ''ethereum'') \<and>
   map_of (chainData (analyseWallet
     [(''bsc'', \<lparr> nativeReply = Resolves (Some \<lparr> balance = Some ''1.5'', usdValue = Some 900 \<rparr>),
                 tokenReply = Resolves Absent \<rparr>)])) ''ethereum'' = Some zeroResult \<and>
   length (filter (\<lambda>c. callsFail (reply_of
     [(''bsc'', \<lparr> nativeReply = Resolves (Some \<lparr> balance = Some ''1.5'', usdValue = Some 900 \<rparr>),
                 tokenReply = Resolves Absent \<rparr>)] c)) chains) = 5 \<and>
   activeChains (analyseWallet
     [(''bsc'', \<lparr> nativeReply = Resolves (Some \<lparr> balance = Some ''1.5'', usdValue = Some 900 \<rparr>),
                 tokenReply = Resolves Absent \<rparr>)]) = 1"
proof -
  let ?api = "[(''bsc'', \<lparr> nativeReply = Resolves (Some \<lparr> balance = Some ''1.5'', usdValue = Some 900 \<rparr>),
                 tokenReply = Resolves Absent \<rparr>)]"
  have k: "Some ''t-66a730e4'' = Some ''t-66a730e4''" "''t-66a730e4'' \<noteq> []"
    "''t-66a730e4'' \<noteq> ''your_tatum_api_key_here''"
    by simp_all
  have c: "''ethereum'' \<in> set chains" by (simp add: chains_def)
  have f: "callsFail (reply_of ?api ''ethereum'')" by code_simp
  have n: "length (filter (\<lambda>c. callsFail (reply_of ?api c)) chains) = 5" by code_simp
  have a: "activeChains (analyseWallet ?api) = 1" by code_simp
  show ?thesis
    using wallet_fan_out [OF k, of ?api "''0xd8da6bf26964af9d7eed9e03e53415d37aa96045''"] c f n a
    by blast
qed

text \<open>
  Claim C3 says that with \<open>K\<close> failed chains exactly \<open>6 - K\<close> chains are reported
  active and that the response has a note \<open>API Errors: K/6\<close>. Here the requests of two
  chains fail and four chains answer, three of them with an empty wallet: one chain is
  active, not four, and \<open>apiErrors\<close> is 0, since the \<open>catch\<close> of each request has
  already replaced the failure by a default response, so the summary has no such note.
\<close>

theorem wallet_fan_out_counterexample:
  "map (callsFail \<circ> reply_of
     [(''bsc'', \<lparr> nativeReply = Resolves (Some \<lparr> balance = Some ''1.5'', usdValue = None \<rparr>),
                 tokenReply = Resolves (Array [\<lparr> tokenAddress = Some ''0x55d398326f99059ff775485246999027b3197955'',
                     token_balance = Some ''12'', token_usdValue = None, symbol = None \<rparr>]) \<rparr>),
      (''arbitrum'', \<lparr> nativeReply = Resolves (Some \<lparr> balance = Some ''0'', usdValue = None \<rparr>),
                 tokenReply = Resolves Absent \<rparr>),
      (''base'', \<lparr> nativeReply = Resolves (Some \<lparr> balance = Some ''0'', usdValue = None \<rparr>),
                 tokenReply = Resolves Absent \<rparr>),
      (''optimism'', \<lparr> nativeReply = Resolves (Some \<lparr> balance = Some ''0'', usdValue = None \<rparr>),
                 tokenReply = Resolves Absent \<rparr>)]) chains =
     [True, True, False, False, False, False] \<and>
   fst (getMultiChainWalletFallback (Some ''t-66a730e4'')
     [(''bsc'', \<lparr> nativeReply = Resolves (Some \<lparr> balance = Some ''1.5'', usdValue = None \<rparr>),
                 tokenReply = Resolves (Array [\<lparr> tokenAddress = Some ''0x55d398326f99059ff775485246999027b3197955'',
                     token_balance = Some ''12'', token_usdValue = None, symbol = None \<rparr>]) \<rparr>),
      (''arbitrum'', \<lparr> nativeReply = Resolves (Some \<lparr> balance = Some ''0'', usdValue = None \<rparr>),
                 tokenReply = Resolves Absent \<rparr>),
      (''base'', \<lparr> nativeReply = Resolves (Some \<lparr> balance = Some ''0'', usdValue = None \<rparr>),
                 tokenReply = Resolves Absent \<rparr>),
      (''optimism'', \<lparr> nativeReply = Resolves (Some \<lparr> balance = Some ''0'', usdValue = None \<rparr>),
                 tokenReply = Resolves Absent \<rparr>)]
     ''0xd8da6bf26964af9d7eed9e03e53415d37aa96045'') =
   Analysis
     \<lparr> chainData =
         [(''ethereum'', zeroResult), (''polygon'', zeroResult),
          (''bsc'', \<lparr> nativeBalance = ''1.5'', nativeValue = 0,
                      tokens = [\<lparr> tokenAddress = Some ''0x55d398326f99059ff775485246999027b3197955'',
                          token_balance = Some ''12'', token_usdValue = Some 0,
                          symbol = Some ''0x55d3...7955'' \<rparr>],
                      tokenValue = 0, totalValue = 0 \<rparr>),
          (''arbitrum'', zeroResult), (''base'', zeroResult), (''optimism'', zeroResult)],
       totalPortfolioValue = 0, totalTokens = 1, activeChains = 1, apiErrors = 0 \<rparr> \<and>
   walletSummary ''0xd8da6bf26964af9d7eed9e03e53415d37aa96045''
     \<lparr> chainData =
         [(''ethereum'', zeroResult), (''polygon'', zeroResult),
          (''bsc'', \<lparr> nativeBalance = ''1.5'', nativeValue = 0,
                      tokens = [\<lparr> tokenAddress = Some ''0x55d398326f99059ff775485246999027b3197955'',
                          token_balance = Some ''12'', token_usdValue = Some 0,
                          symbol = Some ''0x55d3...7955'' \<rparr>],
                      tokenValue = 0, totalValue = 0 \<rparr>),
          (''arbitrum'', zeroResult), (''base'', zeroResult), (''optimism'', zeroResult)],
       totalPortfolioValue = 0, totalTokens = 1, activeChains = 1, apiErrors = 0 \<rparr> =
   pictograph_money @ '' **Multi-Chain Wallet Analysis (Fallback Mode)**'' @ nl @ nl @
   ''**Address:** '' @ [CHR 0x60] @ ''0xd8da6bf26964af9d7eed9e03e53415d37aa96045'' @ [CHR 0x60] @ nl @
   ''**Total Portfolio Value:** $0.00'' @ nl @
   ''**Active Chains:** 1/6'' @ nl @
   ''**Total Tokens:** 1'' @ nl @ nl"
  by code_simp


lemma sum_list_nonzero: "sum_list (filter (\<lambda>v. v \<noteq> 0) vs) = sum_list (vs :: rat list)"
  by (induction vs) auto

lemma single_nonzero:
  assumes nonneg: "\<forall>v\<in>set vs. (0::rat) \<le> v" and one: "length (filter (\<lambda>v. v \<noteq> 0) vs) = 1"
  shows "0 < sum_list vs \<and> Math_max vs = Some (sum_list vs)"
proof -
  from one obtain v where v: "filter (\<lambda>v. v \<noteq> 0) vs = [v]"
    by (cases "filter (\<lambda>v. v \<noteq> 0) vs") auto
  then have "v \<in> set (filter (\<lambda>v. v \<noteq> 0) vs)" by simp
  then have vin: "v \<in> set vs" and "v \<noteq> 0" by auto
  with nonneg have pos: "0 < v" by force
  have s: "sum_list vs = v" using sum_list_nonzero [of vs] v by simp
  have le: "x \<le> v" if "x \<in> set vs" for x
  proof (cases "x = 0")
    case True
    then show ?thesis using pos by simp
  next
    case False
    with that have "x \<in> set (filter (\<lambda>v. v \<noteq> 0) vs)" by simp
    then show ?thesis using v by simp
  qed
  have "Max (set vs) = v" using vin le by (intro Max_eqI) auto
  moreover obtain w ws where "vs = w # ws" using vin by (cases vs) auto
  ultimately have "Math_max vs = Some v"
    by (simp add: Math_max_def Max.set_eq_fold [symmetric])
  then show ?thesis using s pos by simp
qed

lemma Math_max_Max: "vs \<noteq> [] \<Longrightarrow> Math_max vs = Some (Max (set vs))"
  by (cases vs) (simp_all add: Math_max_def Max.set_eq_fold [symmetric])

lemma activeChains_le: "pd_activeChains (analysePortfolio api) \<le> 6"
proof -
  have "length (concat (map (\<lambda>(c, r). case r of Inl e \<Rightarrow> [] | Inr x \<Rightarrow> [(c, x)]) xs)) \<le> length xs"
    for xs :: "(string \<times> (string + chain_result)) list"
    by (induction xs) (auto split: sum.splits)
  from this [of "map (\<lambda>c. (c, portfolioChain (reply_of api c))) chains"]
  have "length (pd_chains (analysePortfolio api)) \<le> 6"
    by (simp add: analysePortfolio_def Let_def chains_def)
  moreover have "pd_activeChains (analysePortfolio api) \<le> length (pd_chains (analysePortfolio api))"
    by (simp add: analysePortfolio_def Let_def)
  ultimately show ?thesis by simp
qed

text \<open>
  Claim C8. In the risk analysis of the multi-chain portfolio, the concentration is the
  largest value of a chain divided by the total value, times 100, whenever the total is
  positive; it is exactly 100 when exactly one chain has a value other than zero (values
  being amounts, none negative); the diversification is the number of active chains
  divided by 6, times 100, and that number is at most 6; the stability is the minimum of
  100 and the number of tokens divided by 10, times 100.
\<close>

theorem risk_analysis:
  "(0 < pd_totalValue (analysePortfolio api) \<longrightarrow>
      concentration (pd_riskAnalysis (analysePortfolio api)) =
        Some (Max (set (map (\<lambda>(c, x). totalValue x) (pd_chains (analysePortfolio api)))) /
              pd_totalValue (analysePortfolio api) * 100)) \<and>
   ((\<forall>v\<in>set (map (\<lambda>(c, x). totalValue x) (pd_chains (analysePortfolio api))). 0 \<le> v) \<and>
    length (filter (\<lambda>v. v \<noteq> 0)
      (map (\<lambda>(c, x). totalValue x) (pd_chains (analysePortfolio api)))) = 1 \<longrightarrow>
      concentration (pd_riskAnalysis (analysePortfolio api)) = Some 100) \<and>
   diversification (pd_riskAnalysis (analysePortfolio api)) =
     of_nat (pd_activeChains (analysePortfolio api)) / 6 * 100 \<and>
   pd_activeChains (analysePortfolio api) \<le> 6 \<and>
   stability (pd_riskAnalysis (analysePortfolio api)) =
     min 100 (of_nat (pd_totalTokens (analysePortfolio api)) / 10 * 100)"
proof -
  define vs where "vs = map (\<lambda>(c, x). totalValue x) (pd_chains (analysePortfolio api))"
  have total: "pd_totalValue (analysePortfolio api) = sum_list vs"
    by (simp add: vs_def analysePortfolio_def Let_def)
  have conc: "concentration (pd_riskAnalysis (analysePortfolio api)) =
      (if 0 < sum_list vs then map_option (\<lambda>m. m / sum_list vs * 100) (Math_max vs) else Some 0)"
    by (simp add: vs_def analysePortfolio_def Let_def)
  have 1: "concentration (pd_riskAnalysis (analysePortfolio api)) =
        Some (Max (set vs) / pd_totalValue (analysePortfolio api) * 100)"
    if "0 < pd_totalValue (analysePortfolio api)"
  proof -
    from that total have "vs \<noteq> []" by auto
    then show ?thesis using that total conc by (simp add: Math_max_Max)
  qed
  have 2: "concentration (pd_riskAnalysis (analysePortfolio api)) = Some 100"
    if "\<forall>v\<in>set vs. 0 \<le> v" "length (filter (\<lambda>v. v \<noteq> 0) vs) = 1"
    using single_nonzero [OF that] conc by simp
  have 3: "diversification (pd_riskAnalysis (analysePortfolio api)) =
     of_nat (pd_activeChains (analysePortfolio api)) / 6 * 100"
    by (simp add: analysePortfolio_def Let_def chains_def)
  have st: "stability (pd_riskAnalysis (analysePortfolio api)) =
     (if 0 < pd_totalTokens (analysePortfolio api)
      then min 100 (of_nat (pd_totalTokens (analysePortfolio api)) / 10 * 100) else 0)"
    by (simp only: analysePortfolio_def Let_def portfolioData.select_convs
          riskAnalysis.select_convs)
  have 4: "stability (pd_riskAnalysis (analysePortfolio api)) =
     min 100 (of_nat (pd_totalTokens (analysePortfolio api)) / 10 * 100)"
    unfolding st by simp
  from 1 2 3 4 activeChains_le show ?thesis unfolding vs_def by blast
qed

text \<open>A portfolio with all its value on one chain.\<close>

theorem risk_analysis_witness:
  "0 < pd_totalValue (analysePortfolio
     [(''bsc'', \<lparr> nativeReply = Resolves (Some \<lparr> balance = Some ''1.5'', usdValue = Some 300 \<rparr>),
                 tokenReply = Resolves (Array [\<lparr> tokenAddress = None, token_balance = Some ''12'',
                     token_usdValue = Some 12, symbol = Some ''USDT'' \<rparr>]) \<rparr>)]) \<and>
   map (\<lambda>(c, x). totalValue x) (pd_chains (analysePortfolio
     [(''bsc'', \<lparr> nativeReply = Resolves (Some \<lparr> balance = Some ''1.5'', usdValue = Some 300 \<rparr>),
                 tokenReply = Resolves (Array [\<lparr> tokenAddress = None, token_balance = Some ''12'',
                     token_usdValue = Some 12, symbol = Some ''USDT'' \<rparr>]) \<rparr>)])) =
     [0, 0, 312, 0, 0, 0] \<and>
   pd_riskAnalysis (analysePortfolio
     [(''bsc'', \<lparr> nativeReply = Resolves (Some \<lparr> balance = Some ''1.5'', usdValue = Some 300 \<rparr>),
                 tokenReply = Resolves (Array [\<lparr> tokenAddress = None, token_balance = Some ''12'',
                     token_usdValue = Some 12, symbol = Some ''USDT'' \<rparr>]) \<rparr>)]) =
     \<lparr> diversification = 50 / 3, concentration = Some 100, stability = 10 \<rparr>"
proof -
  let ?api = "[(''bsc'', \<lparr> nativeReply = Resolves (Some \<lparr> balance = Some ''1.5'', usdValue = Some 300 \<rparr>),
                 tokenReply = Resolves (Array [\<lparr> tokenAddress = None, token_balance = Some ''12'',
                     token_usdValue = Some 12, symbol = Some ''USDT'' \<rparr>]) \<rparr>)]"
  have t: "pd_totalValue (analysePortfolio ?api) = 312" by code_simp
  have vs: "map (\<lambda>(c, x). totalValue x) (pd_chains (analysePortfolio ?api)) = [0, 0, 312, 0, 0, 0]"
    by code_simp
  have a: "pd_activeChains (analysePortfolio ?api) = 1" by code_simp
  have n: "pd_totalTokens (analysePortfolio ?api) = 1" by code_simp
  have "concentration (pd_riskAnalysis (analysePortfolio ?api)) = Some 100 \<and>
        diversification (pd_riskAnalysis (analysePortfolio ?api)) = 50 / 3 \<and>
        stability (pd_riskAnalysis (analysePortfolio ?api)) = 10"
    using risk_analysis [of ?api] unfolding vs t a n by simp
  then have "pd_riskAnalysis (analysePortfolio ?api) =
     \<lparr> diversification = 50 / 3, concentration = Some 100, stability = 10 \<rparr>"
    by (cases "pd_riskAnalysis (analysePortfolio ?api)") simp
  then show ?thesis using t vs by simp
qed

subsection \<open>Double arithmetic\<close>

lemma bitlen_pos: "0 < m \<Longrightarrow> 1 \<le> bitlen m"
  using bitlen_nonneg [of m] bitlen_eq_zero_iff [of m] by linarith

lemma expo_ge1:
  assumes "1 \<le> x"
  shows "2 powi expo x \<le> x \<and> x < 2 powi (expo x + 1)"
proof -
  define m where "m = \<lfloor>x\<rfloor>"
  have m: "1 \<le> m" using assms unfolding m_def by simp
  define b where "b = bitlen m"
  have b: "1 \<le> b" unfolding b_def using m by (intro bitlen_pos) simp
  from bitlen_bounds [of m] m have bb: "2 ^ nat (b - 1) \<le> m" "m < 2 ^ nat b"
    unfolding b_def by simp_all
  have e: "expo x = b - 1" using assms by (simp add: expo_def b_def m_def)
  have "(2::rat) ^ nat (b - 1) = of_int (2 ^ nat (b - 1))" by simp
  also have "\<dots> \<le> of_int m" using bb(1) by (simp only: of_int_le_iff)
  also have "\<dots> \<le> x" unfolding m_def by simp
  finally have lo: "(2::rat) ^ nat (b - 1) \<le> x" .
  have "m + 1 \<le> 2 ^ nat b" using bb(2) by simp
  hence "(of_int (m + 1) :: rat) \<le> of_int (2 ^ nat b)" by (simp only: of_int_le_iff)
  moreover have "x < of_int (m + 1)" unfolding m_def by linarith
  ultimately have hi: "x < (2::rat) ^ nat b" by simp
  show ?thesis using lo hi b unfolding e by (simp add: power_int_def)
qed

lemma expo_lt1:
  assumes "0 < x" "x < 1"
  shows "2 powi expo x \<le> x \<and> x < 2 powi (expo x + 1)"
proof -
  define y where "y = 1 / x"
  have y: "1 < y" using assms by (simp add: y_def)
  define n where "n = \<lceil>y\<rceil> - 1"
  have n: "1 \<le> n" using y unfolding n_def by (simp add: less_ceiling_iff)
  have ny: "of_int n < y" "y \<le> of_int (n + 1)" unfolding n_def by linarith+
  define b where "b = bitlen n"
  have b: "1 \<le> b" unfolding b_def using n by (intro bitlen_pos) simp
  from bitlen_bounds [of n] n have bb: "2 ^ nat (b - 1) \<le> n" "n < 2 ^ nat b"
    unfolding b_def by simp_all
  have e: "expo x = - b" using assms by (simp add: expo_def b_def n_def y_def)
  have "n + 1 \<le> 2 ^ nat b" using bb(2) by simp
  hence "(of_int (n + 1) :: rat) \<le> of_int (2 ^ nat b)" by (simp only: of_int_le_iff)
  hence "y \<le> 2 ^ nat b" using ny(2) by simp
  hence lo: "1 / 2 ^ nat b \<le> x" using assms(1) unfolding y_def by (simp add: field_simps)
  have "(2::rat) ^ nat (b - 1) = of_int (2 ^ nat (b - 1))" by simp
  also have "\<dots> \<le> of_int n" using bb(1) by (simp only: of_int_le_iff)
  also have "\<dots> < y" by (rule ny(1))
  finally have "2 ^ nat (b - 1) < y" .
  hence hi: "x < 1 / 2 ^ nat (b - 1)" using assms(1) unfolding y_def by (simp add: field_simps)
  have p1: "(2::rat) powi (- b) = 1 / 2 ^ nat b" using b by (simp add: power_int_def field_simps)
  have p2: "(2::rat) powi (- b + 1) = 1 / 2 ^ nat (b - 1)"
  proof (cases "b = 1")
    case True thus ?thesis by simp
  next
    case False
    hence "- b + 1 < 0" using b by simp
    moreover have "nat (- (- b + 1)) = nat (b - 1)" by simp
    ultimately show ?thesis by (simp add: power_int_def field_simps)
  qed
  show ?thesis using lo hi unfolding e p1 p2 by simp
qed

lemma expo_bounds:
  assumes "0 < x"
  shows "2 powi expo x \<le> x" and "x < 2 powi (expo x + 1)"
  using expo_ge1 [of x] expo_lt1 [of x] assms by (cases "1 \<le> x"; simp)+

lemma powi_less_cancel:
  assumes "(2::rat) powi a < 2 powi b"
  shows "a < b"
proof (rule ccontr)
  assume "\<not> a < b"
  hence "b \<le> a" by simp
  hence "(2::rat) powi b \<le> 2 powi a" by (rule power_int_increasing) simp
  thus False using assms by simp
qed

lemma expo_unique:
  assumes "2 powi e \<le> x" "x < 2 powi (e + 1)"
  shows "expo x = e"
proof -
  have "(0::rat) < 2 powi e" by (rule zero_less_power_int) simp
  hence x: "0 < x" using assms(1) by linarith
  note b = expo_bounds [OF x]
  have "(2::rat) powi e < 2 powi (expo x + 1)" using assms(1) b(2) by simp
  hence 1: "e < expo x + 1" by (rule powi_less_cancel)
  have "(2::rat) powi expo x < 2 powi (e + 1)" using assms(2) b(1) by simp
  hence 2: "expo x < e + 1" by (rule powi_less_cancel)
  show ?thesis using 1 2 by simp
qed

lemma rne_near:
  assumes "\<bar>y - of_int m\<bar> < 1 / 2"
  shows "rne y = m"
proof -
  have "\<lfloor>y\<rfloor> = m \<or> \<lfloor>y\<rfloor> = m - 1"
    using assms by (auto simp: floor_eq_iff abs_less_iff) (linarith+)?
  thus ?thesis
  proof
    assume f: "\<lfloor>y\<rfloor> = m"
    have "y - of_int m < 1 / 2" using assms by linarith
    thus ?thesis using f by (simp add: rne_def Let_def)
  next
    assume f: "\<lfloor>y\<rfloor> = m - 1"
    have "1 / 2 < y - (of_int m - 1)" using assms by linarith
    hence "1 / 2 < y - of_int (m - 1)" by simp
    thus ?thesis using f by (simp add: rne_def Let_def)
  qed
qed

lemma rne_int: "rne (of_int m) = m"
  by (rule rne_near) simp

lemma rne_err: "\<bar>of_int (rne y) - y\<bar> \<le> 1 / 2"
proof -
  have "of_int \<lfloor>y\<rfloor> \<le> y" "y < of_int \<lfloor>y\<rfloor> + 1" by linarith+
  thus ?thesis by (auto simp: rne_def Let_def abs_le_iff)
qed

lemma powi_pos: "(0::rat) < 2 powi e"
  by (rule zero_less_power_int) simp

lemma dbl_pos:
  assumes "0 < x"
  shows "dbl x = of_int (rne (x / 2 powi (expo x - 52))) * 2 powi (expo x - 52)"
  using assms by (simp add: dbl_def Let_def)

lemma dbl_err:
  assumes "0 < x"
  shows "\<bar>dbl x - x\<bar> \<le> x / 2 ^ 53"
proof -
  define s :: rat where "s = 2 powi (expo x - 52)"
  have s: "0 < s" unfolding s_def by (rule powi_pos)
  have d: "dbl x = of_int (rne (x / s)) * s" unfolding s_def by (rule dbl_pos [OF assms])
  have "dbl x - x = (of_int (rne (x / s)) - x / s) * s" using s unfolding d by (simp add: field_simps)
  hence "\<bar>dbl x - x\<bar> = \<bar>of_int (rne (x / s)) - x / s\<bar> * s" using s by (simp add: abs_mult)
  also have "\<dots> \<le> (1 / 2) * s" using rne_err [of "x / s"] s by (intro mult_right_mono) simp_all
  also have "\<dots> = 2 powi expo x / 2 ^ 53" unfolding s_def by (simp add: power_int_diff)
  also have "\<dots> \<le> x / 2 ^ 53" using expo_bounds(1) [OF assms] by (simp add: divide_right_mono)
  finally show ?thesis .
qed

lemma dbl_exact:
  assumes "0 < m" "m \<le> 2 ^ 53"
  shows "dbl (of_int m * 2 powi q) = of_int m * 2 powi q"
proof -
  define x :: rat where "x = of_int m * 2 powi q"
  have x: "0 < x" unfolding x_def using assms(1) powi_pos [of q] by simp
  define e where "e = expo x"
  note b = expo_bounds [OF x, folded e_def]
  define s :: rat where "s = 2 powi (e - 52)"
  have s: "0 < s" unfolding s_def by (rule powi_pos)
  have "\<exists>n. x / s = of_int n"
  proof (cases "e - 52 \<le> q")
    case True
    have "x / s = of_int m * 2 powi (q - (e - 52))" unfolding x_def s_def by (simp add: power_int_diff)
    also have "(2::rat) powi (q - (e - 52)) = of_int (2 ^ nat (q - (e - 52)))"
      using True by (simp add: power_int_def)
    finally have "x / s = of_int (m * 2 ^ nat (q - (e - 52)))" by simp
    thus ?thesis by blast
  next
    case False
    hence "q + 53 \<le> e" by simp
    hence "(2::rat) powi (q + 53) \<le> 2 powi e" by (rule power_int_increasing) simp
    moreover have "x \<le> 2 powi (q + 53)"
    proof -
      have "(of_int m :: rat) \<le> of_int (2 ^ 53)" using assms(2) by (simp only: of_int_le_iff)
      hence "(of_int m :: rat) * 2 powi q \<le> 2 ^ 53 * 2 powi q"
        using powi_pos [of q] by (intro mult_right_mono) simp_all
      thus ?thesis unfolding x_def by (simp add: power_int_add)
    qed
    ultimately have "x = 2 powi e" using b(1) by simp
    hence "x / s = 2 ^ 52" unfolding s_def by (simp add: power_int_diff)
    hence "x / s = of_int (2 ^ 52)" by simp
    thus ?thesis by blast
  qed
  then obtain n where n: "x / s = of_int n" ..
  have "dbl x = of_int (rne (x / s)) * s" unfolding s_def e_def by (rule dbl_pos [OF x])
  also have "\<dots> = of_int n * s" unfolding n rne_int ..
  also have "\<dots> = x" using n s by (simp add: field_simps)
  finally show ?thesis unfolding x_def .
qed

lemma dbl_of_nat:
  assumes "n < 2 ^ 53"
  shows "dbl (of_nat n) = of_nat n"
proof (cases "n = 0")
  case True thus ?thesis by (simp add: dbl_def)
next
  case False
  have "int n < int (2 ^ 53)" using assms by (simp only: of_nat_less_iff)
  hence "int n \<le> 2 ^ 53" by simp
  with False have "dbl (of_int (int n) * 2 powi 0) = of_int (int n) * 2 powi 0"
    by (intro dbl_exact) simp_all
  thus ?thesis by simp
qed

lemma dbl_nearest:
  assumes M: "2 ^ 52 < M" "M < 2 ^ 53"
    and x: "\<bar>x / 2 powi (e - 52) - of_int M\<bar> < 1 / 2"
  shows "dbl x = of_int M * 2 powi (e - 52)"
proof -
  define s :: rat where "s = 2 powi (e - 52)"
  have s: "0 < s" unfolding s_def by (rule powi_pos)
  have "(of_int (2 ^ 52 + 1) :: rat) \<le> of_int M" using M(1) by simp
  hence lo: "2 ^ 52 + 1 \<le> (of_int M :: rat)" by simp
  have "(of_int (M + 1) :: rat) \<le> of_int (2 ^ 53)" using M(2) by simp
  hence hi: "(of_int M :: rat) + 1 \<le> 2 ^ 53" by simp
  from x have xs: "2 ^ 52 \<le> x / s" "x / s < 2 ^ 53" using lo hi unfolding s_def by linarith+
  have se: "2 ^ 52 * s = 2 powi e" "2 ^ 53 * s = 2 powi (e + 1)"
    unfolding s_def by (simp_all add: power_int_diff power_int_add)
  have "2 powi e \<le> x" "x < 2 powi (e + 1)" using xs s unfolding se [symmetric] by (simp_all add: field_simps)
  hence e: "expo x = e" by (rule expo_unique)
  have xp: "0 < x" using \<open>2 powi e \<le> x\<close> powi_pos [of e] by linarith
  show ?thesis using x unfolding dbl_pos [OF xp] e by (simp add: rne_near)
qed


lemma dbl_zero: "dbl 0 = 0"
  by (simp add: dbl_def)

lemma dbl_minus: "dbl (- x) = - dbl x"
  by (simp add: dbl_def Let_def)

lemma dbl_gt0:
  assumes "0 < x"
  shows "0 < dbl x"
proof -
  have "x / 2 ^ 53 < x" using assms by (simp add: field_simps)
  thus ?thesis using dbl_err [OF assms] by linarith
qed

lemma rne_mono_bounds:
  assumes "of_int a \<le> y" "y \<le> of_int b"
  shows "a \<le> rne y" "rne y \<le> b"
proof -
  have f: "a \<le> \<lfloor>y\<rfloor>" "\<lfloor>y\<rfloor> \<le> b" using assms by (simp_all add: le_floor_iff floor_le_iff)
  show "a \<le> rne y" using f(1) by (simp add: rne_def Let_def)
  show "rne y \<le> b"
  proof (cases "\<lfloor>y\<rfloor> = b")
    case True
    hence "y = of_int b" using assms(2) by (metis of_int_floor_le order_antisym)
    thus ?thesis by (simp add: rne_int)
  next
    case False
    hence "\<lfloor>y\<rfloor> + 1 \<le> b" using f(2) by simp
    thus ?thesis by (simp add: rne_def Let_def)
  qed
qed

lemma dbl_idem_pos:
  assumes "0 < x"
  shows "dbl (dbl x) = dbl x"
proof -
  define e where "e = expo x"
  define s :: rat where "s = 2 powi (e - 52)"
  have s: "0 < s" unfolding s_def by (rule powi_pos)
  note b = expo_bounds [OF assms, folded e_def]
  have se: "2 ^ 52 * s = 2 powi e" "2 ^ 53 * s = 2 powi (e + 1)"
    unfolding s_def by (simp_all add: power_int_diff power_int_add)
  have "2 ^ 52 * s \<le> x" "x \<le> 2 ^ 53 * s" using b unfolding se by simp_all
  hence "2 ^ 52 \<le> x / s" "x / s \<le> 2 ^ 53" using s by (simp_all add: field_simps)
  hence "of_int (2 ^ 52) \<le> x / s" "x / s \<le> of_int (2 ^ 53)" by simp_all
  from rne_mono_bounds [OF this] have M: "0 < rne (x / s)" "rne (x / s) \<le> 2 ^ 53" by simp_all
  have d: "dbl x = of_int (rne (x / s)) * 2 powi (e - 52)"
    unfolding s_def e_def by (rule dbl_pos [OF assms])
  show ?thesis unfolding d by (rule dbl_exact [OF M])
qed

lemma dbl_idem: "dbl (dbl x) = dbl x"
proof -
  consider "x = 0" | "0 < x" | "0 < - x" by linarith
  thus ?thesis
  proof cases
    case 1 thus ?thesis by (simp add: dbl_zero)
  next
    case 2 thus ?thesis by (rule dbl_idem_pos)
  next
    case 3
    from dbl_idem_pos [OF this] show ?thesis by (simp add: dbl_minus)
  qed
qed

lemma floor_near:
  fixes y :: rat
  assumes D: "0 < D" and N: "N mod D \<noteq> 0"
    and y: "\<bar>y - of_int N / of_int D\<bar> < 1 / of_int D"
  shows "\<lfloor>y\<rfloor> = N div D"
proof -
  define r where "r = N mod D"
  have "0 \<le> r" "r < D" using D unfolding r_def by simp_all
  hence r: "1 \<le> r" "r \<le> D - 1" using N unfolding r_def by linarith+
  have "N = D * (N div D) + r" unfolding r_def by simp
  hence "(of_int N :: rat) = of_int D * of_int (N div D) + of_int r"
    by (metis of_int_add of_int_mult)
  hence nd: "(of_int N :: rat) / of_int D = of_int (N div D) + of_int r / of_int D"
    using D by (simp add: field_simps)
  have Dp: "(0::rat) < of_int D" using D by simp
  have "(1::rat) \<le> of_int r" "(of_int r :: rat) \<le> of_int D - 1" using r by linarith+
  hence rb: "1 / of_int D \<le> (of_int r :: rat) / of_int D" "(of_int r :: rat) / of_int D \<le> 1 - 1 / of_int D"
    using Dp by (simp_all add: field_simps)
  have "of_int (N div D) \<le> y" "y < of_int (N div D) + 1" using y rb unfolding nd by linarith+
  thus ?thesis by (simp add: floor_eq_iff)
qed

lemma floor_near_tie:
  fixes y :: rat
  assumes y: "\<bar>y - of_int n\<bar> < 1"
  shows "\<lfloor>y\<rfloor> = n \<or> \<lfloor>y\<rfloor> = n - 1"
proof (cases "of_int n \<le> y")
  case True
  hence "\<lfloor>y\<rfloor> = n" using y by (simp add: floor_eq_iff)
  thus ?thesis ..
next
  case False
  hence "\<lfloor>y\<rfloor> = n - 1" using y by (simp add: floor_eq_iff)
  thus ?thesis ..
qed


lemma dbl_consts:
  "dbl (8 / 10) = 3602879701896397 / 4503599627370496"
  "dbl (12 / 10) = 5404319552844595 / 4503599627370496"
  "dbl (9 / 10) = 8106479329266893 / 9007199254740992"
  by code_simp+

lemma dbl_err0:
  assumes "0 \<le> x"
  shows "\<bar>dbl x - x\<bar> \<le> x / 2 ^ 53"
  using dbl_err [of x] assms by (cases "x = 0") (simp_all add: dbl_zero)

lemma dbl_ge0: "0 \<le> x \<Longrightarrow> 0 \<le> dbl x"
  using dbl_gt0 [of x] by (cases "x = 0") (simp_all add: dbl_zero)

text \<open>The product of a double near b and a double constant near c0, rounded, is near b * c0.\<close>

lemma product_err:
  assumes b: "0 \<le> b" "b < 2 ^ 33"
    and c: "0 \<le> c" "c \<le> 13 / 10" "\<bar>c - c0\<bar> \<le> 1 / 2 ^ 53"
  shows "\<bar>dbl (dbl b * c) - b * c0\<bar> < 1 / 1000"
proof -
  define \<delta> where "\<delta> = b / 2 ^ 53"
  define a where "a = dbl b"
  have d0: "0 \<le> \<delta>" "\<delta> \<le> b" using b(1) unfolding \<delta>_def by (simp_all add: field_simps)
  have h1: "\<bar>a - b\<bar> \<le> \<delta>" unfolding a_def \<delta>_def by (rule dbl_err0 [OF b(1)])
  have a: "0 \<le> a" "a \<le> 2 * b" using h1 d0 b(1) dbl_ge0 [OF b(1)] unfolding a_def by linarith+
  have x0: "0 \<le> a * c" using a(1) c(1) by simp
  have "a * c \<le> (2 * b) * (13 / 10)" using a c(1,2) b(1) by (intro mult_mono) simp_all
  hence "a * c / 2 ^ 53 \<le> (2 * b) * (13 / 10) / 2 ^ 53" by (simp add: divide_right_mono)
  hence h2: "\<bar>dbl (a * c) - a * c\<bar> \<le> (26 / 10) * \<delta>"
    using dbl_err0 [OF x0] unfolding \<delta>_def by simp
  have "\<bar>a * c - b * c\<bar> = \<bar>a - b\<bar> * c" using c(1) by (simp add: abs_mult left_diff_distrib [symmetric])
  also have "\<dots> \<le> \<delta> * (13 / 10)" using h1 c(1,2) d0(1) by (intro mult_mono) simp_all
  finally have h3: "\<bar>a * c - b * c\<bar> \<le> (13 / 10) * \<delta>" by simp
  have "\<bar>b * c - b * c0\<bar> = b * \<bar>c - c0\<bar>" using b(1) by (simp add: abs_mult right_diff_distrib [symmetric])
  also have "\<dots> \<le> b * (1 / 2 ^ 53)" using c(3) b(1) by (intro mult_left_mono) simp_all
  finally have h4: "\<bar>b * c - b * c0\<bar> \<le> \<delta>" unfolding \<delta>_def by simp
  have "\<delta> < 2 ^ 33 / 2 ^ 53" using b(2) unfolding \<delta>_def by (simp add: divide_strict_right_mono)
  hence d1: "\<delta> < 1 / 1048576" by simp
  have "\<bar>dbl (a * c) - b * c0\<bar> \<le> (49 / 10) * \<delta>" using h2 h3 h4 by linarith
  thus ?thesis using d1 unfolding a_def by linarith
qed


text \<open>A number close enough to a half-integer that is a multiple of 3/2 rounds to it.\<close>

lemma dbl_tie:
  assumes t: "0 < t" "t < 2 ^ 53" "3 dvd t"
    and x: "\<bar>x - of_int t / 2\<bar> \<le> (of_int t / 2) / 2 ^ 54"
  shows "dbl x = of_int t / 2"
proof -
  define T :: rat where "T = of_int t / 2"
  have "(1::rat) \<le> of_int t" "(of_int t :: rat) < of_int (2 ^ 53)" using t(1,2) by linarith+
  hence T: "1 / 2 \<le> T" "T < 2 ^ 52" unfolding T_def by simp_all
  hence Tp: "0 < T" by linarith
  define e where "e = expo T"
  note b = expo_bounds [OF Tp, folded e_def]
  have "(2::rat) powi e < 2 powi 52" using b(1) T(2) by simp
  hence e1: "e < 52" by (rule powi_less_cancel)
  have "(2::rat) powi (- 1) < 2 powi (e + 1)" using b(2) T(1) by (simp add: power_int_minus)
  hence e2: "- 1 < e + 1" by (rule powi_less_cancel)
  define s :: rat where "s = 2 powi (e - 52)"
  have s: "0 < s" unfolding s_def by (rule powi_pos)
  have se: "2 ^ 52 * s = 2 powi e" "2 ^ 53 * s = 2 powi (e + 1)"
    unfolding s_def by (simp_all add: power_int_diff power_int_add)
  define M where "M = t * 2 ^ nat (51 - e)"
  have "(of_int M :: rat) = of_int t * 2 powi (51 - e)"
    unfolding M_def using e1 by (simp add: power_int_def)
  hence "of_int M * s = of_int t * (2 powi (51 - e) * 2 powi (e - 52))" unfolding s_def by simp
  also have "(2::rat) powi (51 - e) * 2 powi (e - 52) = 2 powi (- 1)"
    by (simp flip: power_int_add)
  finally have Ms: "of_int M * s = T" unfolding T_def by (simp add: power_int_minus)
  have "2 ^ 52 * s \<le> of_int M * s" "of_int M * s < 2 ^ 53 * s" using b unfolding se Ms by simp_all
  hence "(of_int (2 ^ 52) :: rat) \<le> of_int M" "(of_int M :: rat) < of_int (2 ^ 53)" using s by simp_all
  hence M1: "2 ^ 52 \<le> M" "M < 2 ^ 53" by (simp_all only: of_int_le_iff of_int_less_iff)
  have "3 dvd M" unfolding M_def using t(3) by (rule dvd_mult2)
  moreover have "\<not> (3::int) dvd 2 ^ 52" by simp
  ultimately have "M \<noteq> 2 ^ 52" by metis
  hence M2: "2 ^ 52 < M" using M1(1) by simp
  have "x / s - of_int M = (x - T) / s" using s unfolding Ms [symmetric] by (simp add: field_simps)
  hence "\<bar>x / s - of_int M\<bar> = \<bar>x - T\<bar> / s" using s by simp
  also have "\<dots> \<le> (T / 2 ^ 54) / s" using x s unfolding T_def by (intro divide_right_mono) simp_all
  also have "\<dots> < (2 ^ 53 * s / 2 ^ 54) / s"
    using b(2) s unfolding se by (intro divide_strict_right_mono) simp_all
  also have "\<dots> = 1 / 2" using s by simp
  finally have "\<bar>x / 2 powi (e - 52) - of_int M\<bar> < 1 / 2" unfolding s_def .
  from dbl_nearest [OF M2 M1(2) this] show ?thesis using Ms unfolding s_def T_def by simp
qed

lemma dbl_half_integer:
  assumes "0 \<le> m" "m < 2 ^ 52"
  shows "dbl (of_int (2 * m + 1) / 2) = of_int (2 * m + 1) / 2"
proof -
  have "0 < 2 * m + 1" "2 * m + 1 \<le> 2 ^ 53" using assms by simp_all
  hence "dbl (of_int (2 * m + 1) * 2 powi (- 1)) = of_int (2 * m + 1) * 2 powi (- 1)"
    by (rule dbl_exact)
  thus ?thesis by (simp add: power_int_minus field_simps)
qed

lemma int_bound:
  assumes "k < 2 ^ 30"
  shows "int k < 1073741824"
proof -
  have "int k < int (2 ^ 30)" using assms by (simp only: of_nat_less_iff)
  thus ?thesis by simp
qed

lemma odd_factor:
  assumes "int k = c * j" "odd j" "0 < c" "k < 2 ^ 30"
  shows "0 < j" "j < 2 ^ 30"
proof -
  have "0 \<le> c * j" using assms(1) by (metis of_nat_0_le_iff)
  hence "0 \<le> j" using assms(3) by (simp add: zero_le_mult_iff)
  moreover have "j \<noteq> 0" using assms(2) by auto
  ultimately show j: "0 < j" by simp
  have "1 * j \<le> c * j" using assms(3) j by (intro mult_right_mono) simp_all
  thus "j < 2 ^ 30" using int_bound [OF assms(4)] assms(1) by simp
qed

lemma tier_round:
  assumes D: "0 < D" "D \<le> 1000" and N: "N mod D \<noteq> 0"
    and v: "v + 1 / 2 = of_int N / of_int D"
    and p: "\<bar>p - v\<bar> < 1 / 1000"
  shows "Math_round p = round v"
proof -
  have "(0::rat) < of_int D" "(of_int D :: rat) \<le> 1000" using D by linarith+
  hence "1 / 1000 \<le> 1 / (of_int D :: rat)" by (simp add: field_simps)
  hence "\<bar>(p + 1 / 2) - of_int N / of_int D\<bar> < 1 / of_int D" using p unfolding v [symmetric] by simp
  from floor_near [OF D(1) N this] have "Math_round p = N div D" by (simp add: Math_round_def)
  moreover have "round v = N div D" unfolding round_def v by (rule floor_divide_of_int_eq)
  ultimately show ?thesis by simp
qed

lemma hundredths_bound:
  assumes "k < 2 ^ 30"
  shows "0 \<le> (of_nat k :: rat) / 100" "(of_nat k :: rat) / 100 < 2 ^ 33"
proof -
  have "(of_nat k :: rat) < of_nat (2 ^ 30)" using assms by (simp only: of_nat_less_iff)
  thus "(of_nat k :: rat) / 100 < 2 ^ 33" by simp
qed simp

lemma tier_slow:
  assumes k: "k < 2 ^ 30"
  shows "Math_round (dbl (dbl (of_nat k / 100) * dbl (8 / 10))) = round (8 / 10 * (of_nat k / 100) :: rat)"
proof (rule tier_round [where D = 250 and N = "2 * int k + 125"])
  show "(2 * int k + 125) mod 250 \<noteq> 0"
  proof
    assume "(2 * int k + 125) mod 250 = 0"
    hence "250 dvd 2 * int k + 125" by (simp add: dvd_eq_mod_eq_0)
    moreover have "(2::int) dvd 250" by simp
    ultimately have "2 dvd 2 * int k + 125" by (rule dvd_trans [rotated])
    thus False by presburger
  qed
  show "8 / 10 * (of_nat k / 100) + 1 / 2 = (of_int (2 * int k + 125) :: rat) / of_int 250" by simp
  have "\<bar>dbl (dbl (of_nat k / 100) * dbl (8 / 10)) - of_nat k / 100 * (8 / 10)\<bar> < 1 / 1000"
    unfolding dbl_consts by (rule product_err [OF hundredths_bound [OF k]]) simp_all
  thus "\<bar>dbl (dbl (of_nat k / 100) * dbl (8 / 10)) - 8 / 10 * (of_nat k / 100)\<bar> < 1 / 1000"
    by (simp add: mult.commute)
qed simp_all

lemma tier_standard:
  assumes k: "k < 2 ^ 30"
  shows "Math_round (dbl (of_nat k / 100)) = round (of_nat k / 100 :: rat)"
proof (cases "(int k + 50) mod 100 = 0")
  case False
  show ?thesis
  proof (rule tier_round [where D = 100 and N = "int k + 50"])
    show "(int k + 50) mod 100 \<noteq> 0" by (rule False)
    show "of_nat k / 100 + 1 / 2 = (of_int (int k + 50) :: rat) / of_int 100" by simp
    from hundredths_bound [OF k] have "(of_nat k :: rat) / 100 / 2 ^ 53 < 2 ^ 33 / 2 ^ 53"
      by (intro divide_strict_right_mono) simp_all
    thus "\<bar>dbl (of_nat k / 100) - of_nat k / 100\<bar> < 1 / 1000"
      using dbl_err0 [OF hundredths_bound(1) [OF k]] by simp
  qed simp_all
next
  case True
  hence "100 dvd int k + 50" by (simp add: dvd_eq_mod_eq_0)
  then obtain m where m: "int k + 50 = 100 * m" ..
  have "0 \<le> m - 1" "m - 1 < 2 ^ 52" using m int_bound [OF k] by simp_all
  from dbl_half_integer [OF this] have h: "dbl (of_int (2 * m - 1) / 2) = of_int (2 * m - 1) / 2"
    by (simp add: algebra_simps)
  have eq: "(of_nat k :: rat) / 100 = of_int (2 * m - 1) / 2"
  proof -
    have "int k = 50 * (2 * m - 1)" using m by simp
    hence "(of_int (int k) :: rat) = of_int (50 * (2 * m - 1))" by (simp only:)
    thus ?thesis by simp
  qed
  have "dbl (of_nat k / 100) = of_nat k / 100" unfolding eq by (rule h)
  thus ?thesis by (simp only: Math_round_def round_def)
qed

lemma tier_fast:
  assumes k: "k < 2 ^ 30"
  shows "Math_round (dbl (dbl (of_nat k / 100) * dbl (12 / 10))) = round (12 / 10 * (of_nat k / 100) :: rat)"
proof (cases "(3 * int k + 125) mod 250 = 0")
  case False
  show ?thesis
  proof (rule tier_round [where D = 250 and N = "3 * int k + 125"])
    show "(3 * int k + 125) mod 250 \<noteq> 0" by (rule False)
    show "12 / 10 * (of_nat k / 100) + 1 / 2 = (of_int (3 * int k + 125) :: rat) / of_int 250" by simp
    have "\<bar>dbl (dbl (of_nat k / 100) * dbl (12 / 10)) - of_nat k / 100 * (12 / 10)\<bar> < 1 / 1000"
      unfolding dbl_consts by (rule product_err [OF hundredths_bound [OF k]]) simp_all
    thus "\<bar>dbl (dbl (of_nat k / 100) * dbl (12 / 10)) - 12 / 10 * (of_nat k / 100)\<bar> < 1 / 1000"
      by (simp add: mult.commute)
  qed simp_all
next
  case True
  hence "250 dvd 3 * int k + 125" by (simp add: dvd_eq_mod_eq_0)
  then obtain m where m: "3 * int k + 125 = 250 * m" ..
  define j where "j = 42 * (2 * m - 1) - int k"
  have j1: "int k = 125 * j" unfolding j_def using m by simp
  have "3 * j + 1 = 2 * m" using m unfolding j1 by simp
  hence j2: "odd j" by presburger
  note j = j1 j2
  note jp = odd_factor [OF j1 j2 _ k, simplified]
  have b: "(of_nat k :: rat) / 100 = of_int (5 * j) * 2 powi (- 2)"
  proof -
    have "(of_nat k :: rat) = of_int (int k)" by simp
    thus ?thesis unfolding j(1) by (simp add: power_int_minus)
  qed
  have a: "dbl (of_nat k / 100) = of_int (5 * j) * 2 powi (- 2)"
    unfolding b using jp by (intro dbl_exact) simp_all
  have "dbl (of_int (5 * j) * 2 powi (- 2) * (5404319552844595 / 4503599627370496)) = of_int (3 * j) / 2"
  proof (rule dbl_tie)
    have "(of_int (5 * j) :: rat) * 2 powi (- 2) * (5404319552844595 / 4503599627370496) - of_int (3 * j) / 2
            = - (of_int j / 2 ^ 54)"
      by (simp add: power_int_minus)
    moreover have "(0::rat) < of_int j" using jp(1) by simp
    ultimately show "\<bar>(of_int (5 * j) :: rat) * 2 powi (- 2) * (5404319552844595 / 4503599627370496) - of_int (3 * j) / 2\<bar>
            \<le> of_int (3 * j) / 2 / 2 ^ 54"
      by simp

  qed (use jp in simp_all)
  hence "dbl (dbl (of_nat k / 100) * dbl (12 / 10)) = 12 / 10 * (of_nat k / 100)"
    unfolding a dbl_consts unfolding b by (simp add: power_int_minus)
  thus ?thesis by (simp only: Math_round_def round_def)
qed

lemma tier_baseFee:
  assumes k: "k < 2 ^ 30"
  shows "Math_round (dbl (dbl (of_nat k / 100) * dbl (9 / 10))) = round (9 / 10 * (of_nat k / 100) :: rat)"
proof (cases "(9 * int k + 500) mod 1000 = 0")
  case False
  show ?thesis
  proof (rule tier_round [where D = 1000 and N = "9 * int k + 500"])
    show "(9 * int k + 500) mod 1000 \<noteq> 0" by (rule False)
    show "9 / 10 * (of_nat k / 100) + 1 / 2 = (of_int (9 * int k + 500) :: rat) / of_int 1000" by simp
    have "\<bar>dbl (dbl (of_nat k / 100) * dbl (9 / 10)) - of_nat k / 100 * (9 / 10)\<bar> < 1 / 1000"
      unfolding dbl_consts by (rule product_err [OF hundredths_bound [OF k]]) simp_all
    thus "\<bar>dbl (dbl (of_nat k / 100) * dbl (9 / 10)) - 9 / 10 * (of_nat k / 100)\<bar> < 1 / 1000"
      by (simp add: mult.commute)
  qed simp_all
next
  case True
  hence "1000 dvd 9 * int k + 500" by (simp add: dvd_eq_mod_eq_0)
  then obtain m where m: "9 * int k + 500 = 1000 * m" ..
  define j where "j = 389 * (2 * m - 1) - 7 * int k"
  have j1: "int k = 500 * j" unfolding j_def using m by simp
  have "9 * j + 1 = 2 * m" using m unfolding j1 by simp
  hence j2: "odd j" by presburger
  note j = j1 j2
  note jp = odd_factor [OF j1 j2 _ k, simplified]
  have b: "(of_nat k :: rat) / 100 = of_int (5 * j) * 2 powi 0"
  proof -
    have "(of_nat k :: rat) = of_int (int k)" by simp
    thus ?thesis unfolding j(1) by simp
  qed
  have a: "dbl (of_nat k / 100) = of_int (5 * j) * 2 powi 0"
    unfolding b using jp by (intro dbl_exact) simp_all
  have "dbl (of_int (5 * j) * 2 powi 0 * (8106479329266893 / 9007199254740992)) = of_int (9 * j) / 2"
  proof (rule dbl_tie)
    have "(of_int (5 * j) :: rat) * 2 powi 0 * (8106479329266893 / 9007199254740992) - of_int (9 * j) / 2
            = of_int j / 2 ^ 53"
      by simp
    moreover have "(0::rat) < of_int j" using jp(1) by simp
    ultimately show "\<bar>(of_int (5 * j) :: rat) * 2 powi 0 * (8106479329266893 / 9007199254740992) - of_int (9 * j) / 2\<bar>
            \<le> of_int (9 * j) / 2 / 2 ^ 54"
      by simp

  qed (use jp in simp_all)
  hence "dbl (dbl (of_nat k / 100) * dbl (9 / 10)) = 9 / 10 * (of_nat k / 100)"
    unfolding a dbl_consts unfolding b by simp
  thus ?thesis by (simp only: Math_round_def round_def)
qed


lemma wei_bound:
  assumes "wei < 2 ^ 53"
  shows "(of_nat wei :: rat) < 2 ^ 53"
proof -
  have "(of_nat wei :: rat) < of_nat (2 ^ 53)" using assms by (simp only: of_nat_less_iff)
  thus ?thesis by simp
qed

lemma digits_wei:
  assumes wei: "wei < 2 ^ 53"
  shows "fixedDigits 2 (dbl (dbl (of_nat wei) / 10 ^ 9)) = (wei + 5000000) div 10000000 \<or>
         (wei + 5000000) mod 10000000 = 0 \<and>
         Suc (fixedDigits 2 (dbl (dbl (of_nat wei) / 10 ^ 9))) = (wei + 5000000) div 10000000"
proof -
  define w :: rat where "w = of_nat wei / 10 ^ 9"
  define q where "q = dbl w"
  define y where "y = q * 100 + 1 / 2"
  define N where "N = int wei + 5000000"
  have w0: "0 \<le> w" unfolding w_def by simp
  have q0: "0 \<le> q" unfolding q_def by (rule dbl_ge0 [OF w0])
  have "w / 2 ^ 53 < (2 ^ 53 / 10 ^ 9) / 2 ^ 53"
    unfolding w_def using wei_bound [OF wei] by (intro divide_strict_right_mono) simp_all
  hence qw: "\<bar>q - w\<bar> < 1 / 1000000000" using dbl_err0 [OF w0] unfolding q_def by simp
  have nw: "of_int N / of_int 10000000 = w * 100 + 1 / 2" unfolding N_def w_def by simp
  have "\<bar>y - (w * 100 + 1 / 2)\<bar> < 1 / 10000000" unfolding y_def using qw by linarith
  hence near: "\<bar>y - of_int N / of_int 10000000\<bar> < 1 / of_int 10000000"
    unfolding nw by simp
  have fd: "fixedDigits 2 (dbl (dbl (of_nat wei) / 10 ^ 9)) = nat \<lfloor>y\<rfloor>"
    unfolding fixedDigits_def dbl_idem dbl_of_nat [OF wei] y_def q_def w_def
    using q0 [unfolded q_def w_def] by simp
  have nd: "nat (N div 10000000) = (wei + 5000000) div 10000000"
    unfolding N_def by (simp add: nat_div_distrib nat_add_distrib)
  have nm: "N mod 10000000 = int ((wei + 5000000) mod 10000000)"
    unfolding N_def by (simp add: zmod_int)
  show ?thesis
  proof (cases "N mod 10000000 = 0")
    case False
    from floor_near [OF _ False near] have "\<lfloor>y\<rfloor> = N div 10000000" by simp
    thus ?thesis unfolding fd using nd by simp
  next
    case True
    hence m: "(wei + 5000000) mod 10000000 = 0" unfolding nm by simp
    from True have "10000000 dvd N" by (simp add: dvd_eq_mod_eq_0)
    then obtain n where n: "N = 10000000 * n" ..
    have n1: "1 \<le> n" using n unfolding N_def by simp
    have nn: "N div 10000000 = n" unfolding n by simp
    have "(of_int N :: rat) / of_int 10000000 = of_int n" unfolding n by simp
    hence "\<bar>y - of_int n\<bar> < 1" using near by simp
    from floor_near_tie [OF this] show ?thesis
    proof
      assume "\<lfloor>y\<rfloor> = n"
      thus ?thesis unfolding fd using nd nn by simp
    next
      assume "\<lfloor>y\<rfloor> = n - 1"
      hence "Suc (nat \<lfloor>y\<rfloor>) = nat n" using n1 by simp
      thus ?thesis unfolding fd using nd nn m by simp
    qed
  qed
qed

lemma digits_bound:
  assumes wei: "wei < 2 ^ 53"
  shows "fixedDigits 2 (dbl (dbl (of_nat wei) / 10 ^ 9)) < 2 ^ 30"
proof -
  have "wei < 9007199254740992" using wei by simp
  hence "(wei + 5000000) div 10000000 < 2 ^ 30" by simp
  thus ?thesis using digits_wei [OF wei] by linarith
qed

subsection \<open>Gas prices\<close>

lemma Math_round_round: "Math_round x = round x"
  by (simp add: Math_round_def round_def)

text \<open>
  \<open>toFixed\<close> on halves: 1.005, 0.495 and 0.415 are not doubles, the doubles nearest to
  them lie below, and the digits are rounded down; 0.125 is a double, and is rounded up.
\<close>

lemma toFixed_halves:
  "toFixed 2 (1005 / 1000) = ''1.00''"
  "toFixed 2 (495 / 1000) = ''0.49''"
  "toFixed 2 (415 / 1000) = ''0.41''"
  "toFixed 2 (125 / 1000) = ''0.13''"
  by code_simp+

lemma fixedDigits_dbl: "fixedDigits f (dbl x) = fixedDigits f x"
  by (simp add: fixedDigits_def dbl_idem)

lemma gasPriceValue_wei:
  assumes "wei < 2 ^ 53"
  shows "fixedValue 2 (dbl (dbl (of_nat wei) / 10 ^ 9)) =
           dbl (of_nat (fixedDigits 2 (of_nat wei / 10 ^ 9)) / 100)"
proof -
  have "0 \<le> dbl (of_nat wei / 10 ^ 9)" by (rule dbl_ge0) simp
  thus ?thesis unfolding fixedValue_def fixedDigits_dbl dbl_of_nat [OF assms] by simp
qed

lemma api_gas_Resolves:
  "chainParam \<in> set chains \<Longrightarrow>
     api_gas chainParam (Resolves wei) =
       Inr \<lparr> slow = Math_round (dbl (fixedValue 2 (dbl (dbl (of_nat wei) / 10 ^ 9)) * dbl (8 / 10))),
             standard = Math_round (fixedValue 2 (dbl (dbl (of_nat wei) / 10 ^ 9))),
             fast = Math_round (dbl (fixedValue 2 (dbl (dbl (of_nat wei) / 10 ^ 9)) * dbl (12 / 10))),
             baseFee = Math_round (dbl (fixedValue 2 (dbl (dbl (of_nat wei) / 10 ^ 9)) * dbl (9 / 10))) \<rparr>"
  by (simp add: api_gas_def hasConfig_def Let_def)

text \<open>
  Claim C9, as the code has it. For a supported chain and a price below \<open>2 ^ 53\<close> wei,
  the gas route turns the price into Gwei with two decimals, the hundredths \<open>k\<close> of
  \<open>toFixed(2)\<close> on the double quotient, and from that price \<open>g = k / 100\<close> returns the
  tiers of the specification: slow is \<open>0.8 g\<close>, standard \<open>g\<close>, fast \<open>1.2 g\<close> and the
  base fee \<open>0.9 g\<close>, each rounded to an integer; computing the products in doubles
  does not change any of the four roundings. \<open>k\<close> is the price in units of
  \<open>10 ^ 7\<close> wei rounded to the nearest integer, except that a price exactly half-way
  between two hundredths may go down, where the double quotient lies below it. The gas
  path of the fallback responder computes no tier: it prints the properties \<open>slow\<close>,
  \<open>standard\<close> and \<open>fast\<close> of the response of the data source as they come, or
  \<open>N/A\<close>, and no base fee.
\<close>

theorem gas_route_tiers:
  assumes "chainParam \<in> set chains" and "wei < 2 ^ 53"
  shows "api_gas chainParam (Resolves wei) =
           Inr (spec_gas_tiers (of_nat (fixedDigits 2 (of_nat wei / 10 ^ 9)) / 100)) \<and>
         (fixedDigits 2 (of_nat wei / 10 ^ 9) = (wei + 5000000) div 10000000 \<or>
          (wei + 5000000) mod 10000000 = 0 \<and>
          Suc (fixedDigits 2 (of_nat wei / 10 ^ 9)) = (wei + 5000000) div 10000000) \<and>
         getGasDataFallback chainParam (Resolves d) =
           pictograph_refresh @ '' **Fallback Analysis - Gas Prices**'' @ nl @ nl @
           ''**Chain:** '' @ chainParam @ nl @
           ''**Slow:** '' @ or_NA (data_slow d) @ '' Gwei'' @ nl @
           ''**Standard:** '' @ or_NA (data_standard d) @ '' Gwei'' @ nl @
           ''**Fast:** '' @ or_NA (data_fast d) @ '' Gwei'' @ nl @ nl @
           ''*This response was generated using fallback mode due to MCP server issues.*''"
proof (intro conjI)
  define k where "k = fixedDigits 2 (of_nat wei / 10 ^ 9)"
  have kd: "fixedDigits 2 (dbl (dbl (of_nat wei) / 10 ^ 9)) = k"
    unfolding k_def fixedDigits_dbl dbl_of_nat [OF assms(2)] ..
  have k: "k < 2 ^ 30" using digits_bound [OF assms(2)] unfolding kd .
  have "api_gas chainParam (Resolves wei) =
      Inr \<lparr> slow = Math_round (dbl (dbl (of_nat k / 100) * dbl (8 / 10))),
            standard = Math_round (dbl (of_nat k / 100)),
            fast = Math_round (dbl (dbl (of_nat k / 100) * dbl (12 / 10))),
            baseFee = Math_round (dbl (dbl (of_nat k / 100) * dbl (9 / 10))) \<rparr>"
    unfolding api_gas_Resolves [OF assms(1)] gasPriceValue_wei [OF assms(2)] k_def [symmetric] ..
  also have "\<dots> = Inr (spec_gas_tiers (of_nat k / 100))"
    unfolding tier_slow [OF k] tier_standard [OF k] tier_fast [OF k] tier_baseFee [OF k]
      spec_gas_tiers_def ..
  finally show "api_gas chainParam (Resolves wei) =
      Inr (spec_gas_tiers (of_nat (fixedDigits 2 (of_nat wei / 10 ^ 9)) / 100))"
    unfolding k_def .
  show "fixedDigits 2 (of_nat wei / 10 ^ 9) = (wei + 5000000) div 10000000 \<or>
        (wei + 5000000) mod 10000000 = 0 \<and>
        Suc (fixedDigits 2 (of_nat wei / 10 ^ 9)) = (wei + 5000000) div 10000000"
    using digits_wei [OF assms(2)] unfolding kd k_def .
  show "getGasDataFallback chainParam (Resolves d) =
           pictograph_refresh @ '' **Fallback Analysis - Gas Prices**'' @ nl @ nl @
           ''**Chain:** '' @ chainParam @ nl @
           ''**Slow:** '' @ or_NA (data_slow d) @ '' Gwei'' @ nl @
           ''**Standard:** '' @ or_NA (data_standard d) @ '' Gwei'' @ nl @
           ''**Fast:** '' @ or_NA (data_fast d) @ '' Gwei'' @ nl @ nl @
           ''*This response was generated using fallback mode due to MCP server issues.*''"
    by (simp add: getGasDataFallback_def)
qed

text \<open>
  A price of 23.456789012 Gwei on ethereum: 23.46 Gwei after \<open>toFixed(2)\<close>. And a price
  of 0.495 Gwei, half-way between two hundredths: the double quotient is below 0.495 and
  \<open>toFixed(2)\<close> gives 0.49, so that the standard tier is 0.
\<close>

theorem gas_route_tiers_witness:
  "''ethereum'' \<in> set chains \<and> (23456789012::nat) < 2 ^ 53 \<and> (495000000::nat) < 2 ^ 53 \<and>
   api_gas ''ethereum'' (Resolves 23456789012) =
     Inr \<lparr> slow = 19, standard = 23, fast = 28, baseFee = 21 \<rparr> \<and>
   fixedDigits 2 (of_nat 23456789012 / 10 ^ 9) = (23456789012 + 5000000) div 10000000 \<and>
   api_gas ''ethereum'' (Resolves 495000000) =
     Inr \<lparr> slow = 0, standard = 0, fast = 1, baseFee = 0 \<rparr> \<and>
   (495000000 + 5000000) mod 10000000 = (0::nat) \<and>
   Suc (fixedDigits 2 (of_nat 495000000 / 10 ^ 9)) = (495000000 + 5000000) div 10000000"
proof -
  have c: "''ethereum'' \<in> set chains" by (simp add: chains_def)
  have w1: "(23456789012::nat) < 2 ^ 53" and w2: "(495000000::nat) < 2 ^ 53" by simp_all
  have "\<lfloor>\<bar>dbl (23456789012 / 10 ^ 9)\<bar> * 10 ^ 2 + 1 / 2\<rfloor> = 2346" by code_simp
  hence k1: "fixedDigits 2 (of_nat 23456789012 / 10 ^ 9) = 2346" by (simp add: fixedDigits_def)
  have "\<lfloor>\<bar>dbl (495000000 / 10 ^ 9)\<bar> * 10 ^ 2 + 1 / 2\<rfloor> = 49" by code_simp
  hence k2: "fixedDigits 2 (of_nat 495000000 / 10 ^ 9) = 49" by (simp add: fixedDigits_def)
  have t1: "spec_gas_tiers (of_nat 2346 / 100) = \<lparr> slow = 19, standard = 23, fast = 28, baseFee = 21 \<rparr>"
    by (simp add: spec_gas_tiers_def round_def floor_eq_iff)
  have t2: "spec_gas_tiers (of_nat 49 / 100) = \<lparr> slow = 0, standard = 0, fast = 1, baseFee = 0 \<rparr>"
    by (simp add: spec_gas_tiers_def round_def floor_eq_iff)
  show ?thesis
    using gas_route_tiers [OF c w1, unfolded k1 t1] gas_route_tiers [OF c w2, unfolded k2 t2] c k1 k2
    by simp
qed

text \<open>
  Claim C9 says that the tiers are those of the raw price, in the fallback path too. At
  0.416 Gwei the route rounds the price to 0.42 first and returns a fast tier of 1, where
  1.2 times the raw price rounds to 0. And the fallback path, given a response with 10 in
  all three properties, prints 10 three times, where the tiers of 10 Gwei are 8, 10 and 12.
\<close>

theorem gas_route_tiers_counterexample:
  "api_gas ''base'' (Resolves 416000000) =
     Inr \<lparr> slow = 0, standard = 0, fast = 1, baseFee = 0 \<rparr> \<and>
   spec_gas_tiers (416000000 / 10 ^ 9) = \<lparr> slow = 0, standard = 0, fast = 0, baseFee = 0 \<rparr> \<and>
   getGasDataFallback ''ethereum''
     (Resolves \<lparr> data_slow = Some ''10'', data_standard = Some ''10'', data_fast = Some ''10'' \<rparr>) =
     pictograph_refresh @ '' **Fallback Analysis - Gas Prices**'' @ nl @ nl @
     ''**Chain:** ethereum'' @ nl @
     ''**Slow:** 10 Gwei'' @ nl @
     ''**Standard:** 10 Gwei'' @ nl @
     ''**Fast:** 10 Gwei'' @ nl @ nl @
     ''*This response was generated using fallback mode due to MCP server issues.*'' \<and>
   spec_gas_tiers 10 = \<lparr> slow = 8, standard = 10, fast = 12, baseFee = 9 \<rparr>"
proof (intro conjI)
  have c: "''base'' \<in> set chains" by (simp add: chains_def)
  have n: "(of_nat 416000000 :: rat) = 416000000" by simp
  have f: "\<lfloor>\<bar>dbl (dbl (dbl 416000000 / 10 ^ 9))\<bar> * 10 ^ 2 + 1 / 2\<rfloor> = 42" by code_simp
  have p: "\<not> dbl (dbl 416000000 / 10 ^ 9) < 0" by code_simp
  have g: "fixedValue 2 (dbl (dbl (of_nat 416000000) / 10 ^ 9)) = dbl (42 / 100)"
    unfolding fixedValue_def fixedDigits_def n f using p by simp
  have t: "Math_round (dbl (dbl (42 / 100) * dbl (8 / 10))) = 0"
    "Math_round (dbl (42 / 100)) = 0"
    "Math_round (dbl (dbl (42 / 100) * dbl (12 / 10))) = 1"
    "Math_round (dbl (dbl (42 / 100) * dbl (9 / 10))) = 0"
    by code_simp+
  show "api_gas ''base'' (Resolves 416000000) =
     Inr \<lparr> slow = 0, standard = 0, fast = 1, baseFee = 0 \<rparr>"
    unfolding api_gas_Resolves [OF c] g t ..
qed (simp_all add: spec_gas_tiers_def round_def floor_eq_iff getGasDataFallback_def or_NA_def)

end
